theory Spec2Isabelle
  imports Complex_Main "HOL-Library.Log_Nat"
begin

section \<open>Hostel management backend: data model\<close>

text \<open>
  The Express/SQLite backend (the second document of \<^verbatim>\<open>src/public/js/forms.js\<close>)
  keeps its state in the tables Students, Rooms, Allocations and Payments. Every
  handler is modelled as a function from the request and the database to a response
  and the database afterwards. A handler runs from its first query to its response
  without another request in between.

  Conventions of the embedding:
  \<^item> a table is the list of its rows in insertion order; \<^verbatim>\<open>db.get\<close> returns the first
    matching row, \<^verbatim>\<open>UPDATE ... WHERE\<close> rewrites every matching row, \<^verbatim>\<open>DELETE\<close> filters;
  \<^item> an \<^verbatim>\<open>AUTOINCREMENT\<close> key is the table's sequence counter plus one;
  \<^item> a date column (\<^verbatim>\<open>date('now')\<close>, text \<^verbatim>\<open>YYYY-MM-DD\<close>) is the number of that UTC day
    counted from the epoch, a JavaScript \<^verbatim>\<open>Date\<close> is its \<^verbatim>\<open>getTime()\<close> in milliseconds;
  \<^item> a finite JavaScript number is the rational it equals, and its arithmetic is that of
    IEEE 754 binary64: a sum, product or quotient is the exact result rounded by \<open>fl\<close>;
    where the source converts with \<^verbatim>\<open>Number(...)\<close> before computing (the room's fee in
    \<open>buildFeeSnapshot\<close>, the amount of a payment), the model rounds by \<open>fl\<close> too, so
    that a decimal such as 1.005 written for a fee or an amount stands for the binary64
    value the server holds;
  \<^item> an identifier in a request is an integer or absent (\<^verbatim>\<open>undefined\<close>, \<^verbatim>\<open>NaN\<close>); a value
    that is no integer matches no row, as an integer that is in no table does;
  \<^item> a failing storage call is an input: the number of the handler's database call
    whose callback receives an error.
  Columns no modelled query reads (names, phone numbers, complaint rows) are left out.
\<close>

definition MAX_MONTHLY_FEE :: rat where
  "MAX_MONTHLY_FEE = 500000"

definition MAX_ROOM_CAPACITY :: rat where
  "MAX_ROOM_CAPACITY = 50"

definition DAY_MS :: int where
  "DAY_MS = 24 * 60 * 60 * 1000"

text \<open>The result of \<^verbatim>\<open>Number(x)\<close>: a finite value, \<^verbatim>\<open>NaN\<close> or an infinity.\<close>

datatype jsnum = NaN | NegInfinity | PosInfinity | Fin rat

record room =
  room_id :: int
  room_number :: string
  capacity :: rat
  current_occupancy :: int
  floor_level :: int
  room_type :: string
  monthly_fee :: rat
  wifi_available :: bool

record allocation =
  allocation_id :: int
  alloc_student_id :: int
  alloc_room_id :: int
  allocation_date :: int

record payment =
  payment_id :: int
  pay_student_id :: int
  amount :: rat
  pay_date :: int

record db =
  students :: "int list"
  rooms :: "room list"
  allocations :: "allocation list"
  payments :: "payment list"
  students_seq :: int
  rooms_seq :: int
  allocations_seq :: int
  payments_seq :: int

definition empty_db :: db where
  "empty_db = \<lparr>students = [], rooms = [], allocations = [], payments = [],
     students_seq = 0, rooms_seq = 0, allocations_seq = 0, payments_seq = 0\<rparr>"

text \<open>\<^verbatim>\<open>db.get\<close>: the first row of a result, if any.\<close>

definition first_row :: "'a list \<Rightarrow> 'a option" where
  "first_row xs = (case xs of [] \<Rightarrow> None | x # _ \<Rightarrow> Some x)"

section \<open>Binary64 arithmetic\<close>

text \<open>Rounding to the nearest integer, a tie going to the even one.\<close>

definition rne :: "rat \<Rightarrow> int" where
  "rne x =
     (let f = \<lfloor>x\<rfloor>; r = x - of_int f in
      if r < 1 / 2 then f else if 1 / 2 < r then f + 1 else if even f then f else f + 1)"

text \<open>The binary exponent of a positive number: \<open>2 ^ exponent x \<le> x < 2 ^ (exponent x + 1)\<close>.\<close>

definition exponent :: "rat \<Rightarrow> int" where
  "exponent x = (if 1 \<le> x then bitlen \<lfloor>x\<rfloor> - 1 else - bitlen (\<lceil>1 / x\<rceil> - 1))"

text \<open>
  The exponent of the unit in the last place of a positive number: 53 significant bits,
  and never finer than \<open>2 ^ - 1074\<close>, the spacing of the subnormal numbers.
\<close>

definition ulp_exponent :: "rat \<Rightarrow> int" where
  "ulp_exponent x = max (exponent x - 52) (- 1074)"

definition fl_pos :: "rat \<Rightarrow> rat" where
  "fl_pos x =
     (if x = 0 then 0
      else of_int (rne (x / power_int 2 (ulp_exponent x))) * power_int 2 (ulp_exponent x))"

text \<open>
  \<open>fl\<close>: the binary64 value nearest to a rational, ties to even. The exponent range is
  not bounded above: every magnitude the handlers compute with (fees and amounts of at
  most 500000, a fine of 100 per day of the calendar, and a hundred times these) is far
  below the largest binary64 value, so no sum or product overflows.
\<close>

definition fl :: "rat \<Rightarrow> rat" where
  "fl x = (if x < 0 then - fl_pos (- x) else fl_pos x)"

text \<open>The JavaScript operators \<^verbatim>\<open>+\<close>, \<^verbatim>\<open>*\<close> and \<^verbatim>\<open>/\<close> on finite numbers.\<close>

definition js_add :: "rat \<Rightarrow> rat \<Rightarrow> rat" where
  "js_add a b = fl (a + b)"

definition js_mul :: "rat \<Rightarrow> rat \<Rightarrow> rat" where
  "js_mul a b = fl (a * b)"

definition js_div :: "rat \<Rightarrow> rat \<Rightarrow> rat" where
  "js_div a b = fl (a / b)"

text \<open>\<^verbatim>\<open>Math.round\<close>: the nearest integer, a half going upwards; exact on a binary64 value.\<close>

definition Math_round :: "rat \<Rightarrow> int" where
  "Math_round x = \<lfloor>x + 1 / 2\<rfloor>"

section \<open>Billing derivation\<close>

text \<open>
  The five statuses \<open>resolveFeeStatus\<close> tells apart, and the string the server sends
  for each.
\<close>

datatype fee_state = PaymentPending | Paid | Late | Defaulter | CriticalDefaulter

fun fee_state_text :: "fee_state \<Rightarrow> string" where
  "fee_state_text PaymentPending = ''Payment Pending''"
| "fee_state_text Paid = ''Paid''"
| "fee_state_text Late = ''Late''"
| "fee_state_text Defaulter = ''Defaulter''"
| "fee_state_text CriticalDefaulter = ''Critical Defaulter''"

definition startOfTodayUTC :: "int \<Rightarrow> int" where
  "startOfTodayUTC now = (now div DAY_MS) * DAY_MS"

definition parseDbDate :: "int option \<Rightarrow> int option" where
  "parseDbDate v = (case v of None \<Rightarrow> None | Some d \<Rightarrow> Some (d * DAY_MS))"

definition formatDateISO :: "int option \<Rightarrow> int option" where
  "formatDateISO dateObj = (case dateObj of None \<Rightarrow> None | Some t \<Rightarrow> Some (t div DAY_MS))"

definition addDays :: "int \<Rightarrow> int \<Rightarrow> int" where
  "addDays dateObj days = dateObj + days * DAY_MS"

definition resolveFeeStatus :: "int option \<Rightarrow> bool \<Rightarrow> fee_state" where
  "resolveFeeStatus rawDaysLate hasPayment =
     (if \<not> hasPayment then PaymentPending
      else case rawDaysLate of
        None \<Rightarrow> Paid
      | Some n \<Rightarrow>
          if n \<le> 0 then Paid
          else if n \<le> 5 then Late
          else if n \<le> 30 then Defaulter
          else CriticalDefaulter)"

record fee_snapshot =
  snap_student_id :: int
  snap_monthly_fee :: rat
  snap_room_type :: string
  snap_allocation_date :: int
  last_payment_date :: "int option"
  due_date :: "int option"
  days_late :: int
  fine :: int
  total_payable :: rat
  fee_status :: fee_state
  today :: "int option"

text \<open>
  \<^verbatim>\<open>SELECT ... FROM Allocations JOIN Rooms ON Rooms.room_id = Allocations.room_id
  WHERE Allocations.student_id = ?\<close>
\<close>

definition allocation_rows :: "db \<Rightarrow> int \<Rightarrow> (allocation \<times> room) list" where
  "allocation_rows s studentId =
     concat (map (\<lambda>a. map (\<lambda>r. (a, r)) (filter (\<lambda>r. room_id r = alloc_room_id a) (rooms s)))
       (filter (\<lambda>a. alloc_student_id a = studentId) (allocations s)))"

text \<open>\<^verbatim>\<open>SELECT date FROM Payments WHERE student_id = ? ORDER BY date DESC LIMIT 1\<close>\<close>

definition latest_payment_date :: "db \<Rightarrow> int \<Rightarrow> int option" where
  "latest_payment_date s studentId =
     (case map pay_date (filter (\<lambda>p. pay_student_id p = studentId) (payments s)) of
        [] \<Rightarrow> None
      | d # ds \<Rightarrow> Some (fold max ds d))"

text \<open>
  \<open>buildFeeSnapshot\<close>: \<open>allocErr\<close> and \<open>paymentErr\<close> say whether the first and the
  second query fail; \<open>now\<close> is the clock in milliseconds. \<^verbatim>\<open>Number(allocRow.monthly_fee)\<close>
  is the binary64 value of the stored fee; it is finite, so of the test
  \<^verbatim>\<open>!Number.isFinite(monthlyFee) || monthlyFee <= 0\<close> the second part decides. The fine is
  a whole number, and \<^verbatim>\<open>monthlyFee + fine\<close> is a binary64 sum.
\<close>

definition buildFeeSnapshot ::
  "bool \<Rightarrow> bool \<Rightarrow> db \<Rightarrow> int \<Rightarrow> int \<Rightarrow> (nat \<times> string) + fee_snapshot" where
  "buildFeeSnapshot allocErr paymentErr s studentId now =
     (if allocErr then Inl (500, ''Error verifying allocation'')
      else case first_row (allocation_rows s studentId) of
        None \<Rightarrow> Inl (400, ''Student must be allocated to a room before paying fees'')
      | Some (a, r) \<Rightarrow>
          let monthlyFee = fl (monthly_fee r) in
          if monthlyFee \<le> 0 then Inl (500, ''Room fee is not configured for this allocation'')
          else if paymentErr then Inl (500, ''Error fetching payment history'')
          else
            let today = startOfTodayUTC now;
                lastPaymentDate = latest_payment_date s studentId;
                lastPayment = parseDbDate lastPaymentDate;
                hasPayment = (lastPayment \<noteq> None);
                dueDate = (case lastPayment of None \<Rightarrow> None | Some lp \<Rightarrow> Some (addDays lp 30));
                rawDaysLate = (case dueDate of None \<Rightarrow> None
                               | Some d \<Rightarrow> Some ((today - d) div DAY_MS));
                daysLate = (case rawDaysLate of None \<Rightarrow> 0 | Some n \<Rightarrow> if n > 0 then n else 0);
                fine = (if daysLate > 0 then daysLate * 100 else 0);
                fee_status = resolveFeeStatus rawDaysLate hasPayment
            in Inr \<lparr>snap_student_id = studentId,
                    snap_monthly_fee = monthlyFee,
                    snap_room_type = room_type r,
                    snap_allocation_date = allocation_date a,
                    last_payment_date = lastPaymentDate,
                    due_date = formatDateISO dueDate,
                    days_late = daysLate,
                    fine = fine,
                    total_payable = js_add monthlyFee (of_int fine),
                    fee_status = fee_status,
                    today = formatDateISO (Some today)\<rparr>)"

section \<open>Responses and storage statements\<close>

text \<open>Why a payment was refused, as the rejection message words it.\<close>

datatype payment_reason =
    FirstPaymentMustMatch
  | IncludesLateFee int int
  | MustMatchMonthlyFee

text \<open>
  The JSON body of a response. \<open>Message\<close> is a fixed text, \<open>Errors\<close> the validator's
  messages (sent joined by \<^verbatim>\<open>"; "\<close>); the other constructors carry the values the source
  interpolates or returns.
\<close>

datatype payload =
    Message string
  | Errors "string list"
  | RoomMissing int
  | ExpectedPayment rat payment_reason
  | Created string int
  | Transferred int int
  | PaymentRecorded int "fee_snapshot option"

record response =
  status :: nat
  payload :: payload

definition reply :: "nat \<Rightarrow> payload \<Rightarrow> response" where
  "reply st b = \<lparr>status = st, payload = b\<rparr>"

text \<open>The \<open>k\<close>-th database call of a handler fails when the fault input names it.\<close>

definition fails :: "nat option \<Rightarrow> nat \<Rightarrow> bool" where
  "fails fault k = (fault = Some k)"

text \<open>\<^verbatim>\<open>date('now')\<close>: the UTC day of the clock.\<close>

definition date_now :: "int \<Rightarrow> int" where
  "date_now now = now div DAY_MS"

definition student_exists :: "db \<Rightarrow> int \<Rightarrow> bool" where
  "student_exists s studentId = (studentId \<in> set (students s))"

definition allocations_of :: "db \<Rightarrow> int \<Rightarrow> allocation list" where
  "allocations_of s studentId = filter (\<lambda>a. alloc_student_id a = studentId) (allocations s)"

definition room_by_id :: "db \<Rightarrow> int \<Rightarrow> room option" where
  "room_by_id s roomId = first_row (filter (\<lambda>r. room_id r = roomId) (rooms s))"

text \<open>
  \<^verbatim>\<open>INSERT INTO Allocations(student_id, room_id, allocation_date) VALUES (?, ?, date('now'))\<close>
\<close>

definition insert_allocation :: "db \<Rightarrow> int \<Rightarrow> int \<Rightarrow> int \<Rightarrow> db" where
  "insert_allocation s studentId roomId day =
     s\<lparr>allocations := allocations s @
          [\<lparr>allocation_id = allocations_seq s + 1, alloc_student_id = studentId,
            alloc_room_id = roomId, allocation_date = day\<rparr>],
       allocations_seq := allocations_seq s + 1\<rparr>"

text \<open>\<^verbatim>\<open>UPDATE Rooms SET current_occupancy = current_occupancy + 1 WHERE room_id = ?\<close>\<close>

definition increment_occupancy :: "db \<Rightarrow> int \<Rightarrow> db" where
  "increment_occupancy s roomId =
     s\<lparr>rooms := map (\<lambda>r. if room_id r = roomId
                          then r\<lparr>current_occupancy := current_occupancy r + 1\<rparr> else r) (rooms s)\<rparr>"

text \<open>
  \<^verbatim>\<open>UPDATE Rooms SET current_occupancy = CASE WHEN current_occupancy > 0
  THEN current_occupancy - 1 ELSE 0 END WHERE room_id = ?\<close>
\<close>

definition release_occupancy :: "db \<Rightarrow> int \<Rightarrow> db" where
  "release_occupancy s roomId =
     s\<lparr>rooms := map (\<lambda>r. if room_id r = roomId
                          then r\<lparr>current_occupancy :=
                                 (if current_occupancy r > 0 then current_occupancy r - 1 else 0)\<rparr>
                          else r) (rooms s)\<rparr>"

text \<open>
  \<^verbatim>\<open>UPDATE Rooms SET current_occupancy = current_occupancy - 1
  WHERE room_id = ? AND current_occupancy > 0\<close>
\<close>

definition decrement_occupied :: "db \<Rightarrow> int \<Rightarrow> db" where
  "decrement_occupied s roomId =
     s\<lparr>rooms := map (\<lambda>r. if room_id r = roomId \<and> current_occupancy r > 0
                          then r\<lparr>current_occupancy := current_occupancy r - 1\<rparr> else r) (rooms s)\<rparr>"

text \<open>
  \<^verbatim>\<open>UPDATE Allocations SET room_id = ?, allocation_date = date('now') WHERE allocation_id = ?\<close>
\<close>

definition update_allocation :: "db \<Rightarrow> int \<Rightarrow> int \<Rightarrow> int \<Rightarrow> db" where
  "update_allocation s allocationId roomId day =
     s\<lparr>allocations := map (\<lambda>a. if allocation_id a = allocationId
                                then a\<lparr>alloc_room_id := roomId, allocation_date := day\<rparr>
                                else a) (allocations s)\<rparr>"

text \<open>\<^verbatim>\<open>INSERT INTO Payments(student_id, amount, date) VALUES (?, ?, date('now'))\<close>\<close>

definition insert_payment :: "db \<Rightarrow> int \<Rightarrow> rat \<Rightarrow> int \<Rightarrow> db" where
  "insert_payment s studentId amt day =
     s\<lparr>payments := payments s @
          [\<lparr>payment_id = payments_seq s + 1, pay_student_id = studentId,
            amount = amt, pay_date = day\<rparr>],
       payments_seq := payments_seq s + 1\<rparr>"

text \<open>
  \<^verbatim>\<open>ROLLBACK\<close> followed by the error response: the database is again the one
  \<^verbatim>\<open>BEGIN TRANSACTION\<close> saw.
\<close>

definition rollback :: "db \<Rightarrow> nat \<Rightarrow> payload \<Rightarrow> response \<times> db" where
  "rollback saved st b = (reply st b, saved)"

section \<open>Allocation and transfer\<close>

text \<open>
  \<^verbatim>\<open>POST /allocate\<close>. \<open>raw_student_id\<close> and \<open>raw_room_id\<close> are the body's fields
  (\<open>None\<close> when absent). Database calls: 1 student, 2 existing allocation, 3 room, 4 insert, 5 occupancy.
  The handler opens no transaction: a failure of call 5 leaves the inserted row.
\<close>

definition allocate :: "nat option \<Rightarrow> int \<Rightarrow> int option \<Rightarrow> int option \<Rightarrow> db \<Rightarrow> response \<times> db" where
  "allocate fault now raw_student_id raw_room_id s =
     (case (raw_student_id, raw_room_id) of
        (Some studentId, Some roomId) \<Rightarrow>
          if studentId = 0 \<or> roomId = 0
          then (reply 400 (Message ''Student and room are required''), s)
          else if fails fault 1 then (reply 500 (Message ''Error verifying student''), s)
          else if \<not> student_exists s studentId
          then (reply 404 (Message ''Student does not exist''), s)
          else if fails fault 2 then (reply 500 (Message ''Error checking allocation''), s)
          else if allocations_of s studentId \<noteq> []
          then (reply 400 (Message ''Student is already allocated to a room''), s)
          else if fails fault 3 then (reply 500 (Message ''Error fetching room''), s)
          else (case room_by_id s roomId of
            None \<Rightarrow> (reply 404 (RoomMissing roomId), s)
          | Some room \<Rightarrow>
              if of_int (current_occupancy room) \<ge> capacity room
              then (reply 400 (Message ''Room is full''), s)
              else if fails fault 4 then (reply 500 (Message ''Error allocating student''), s)
              else
                let s1 = insert_allocation s studentId roomId (date_now now) in
                if fails fault 5 then (reply 500 (Message ''Error updating room''), s1)
                else (reply 200 (Message ''Student allocated successfully''),
                      increment_occupancy s1 roomId))
      | _ \<Rightarrow> (reply 400 (Message ''Student and room are required''), s))"

text \<open>
  \<^verbatim>\<open>POST /transfer-room\<close>. The arguments are the results of \<^verbatim>\<open>parseInt\<close> (\<open>None\<close> for
  \<^verbatim>\<open>NaN\<close>). Database calls after \<^verbatim>\<open>BEGIN TRANSACTION\<close>: 1 student, 2 allocation, 3 new room,
  4 update of the allocation, 5 release of the old bed, 6 reservation of the new bed,
  7 commit.
\<close>

definition transfer :: "nat option \<Rightarrow> int \<Rightarrow> int option \<Rightarrow> int option \<Rightarrow> db \<Rightarrow> response \<times> db" where
  "transfer fault now raw_student_id raw_new_room_id s =
     (case (raw_student_id, raw_new_room_id) of
        (Some studentId, Some newRoomId) \<Rightarrow>
          if studentId = 0 \<or> newRoomId = 0
          then (reply 400 (Message ''student_id and new_room_id are required''), s)
          else if fails fault 1 then rollback s 500 (Message ''Error verifying student'')
          else if \<not> student_exists s studentId
          then rollback s 404 (Message ''Student does not exist'')
          else if fails fault 2 then rollback s 500 (Message ''Error checking allocation'')
          else (case first_row (allocations_of s studentId) of
            None \<Rightarrow> rollback s 400 (Message ''Student is not allocated to any room'')
          | Some allocation \<Rightarrow>
              let oldRoomId = alloc_room_id allocation in
              if fails fault 3 then rollback s 500 (Message ''Error fetching new room'')
              else (case room_by_id s newRoomId of
                None \<Rightarrow> rollback s 404 (RoomMissing newRoomId)
              | Some room \<Rightarrow>
                  if oldRoomId = newRoomId
                  then rollback s 400 (Message ''Student is already in this room'')
                  else if of_int (current_occupancy room) \<ge> capacity room
                  then rollback s 400 (Message ''New room is full'')
                  else if fails fault 4
                  then rollback s 500 (Message ''Error updating allocation'')
                  else
                    let s1 = update_allocation s (allocation_id allocation) newRoomId
                               (date_now now) in
                    if fails fault 5
                    then rollback s 500 (Message ''Error updating old room occupancy'')
                    else
                      let s2 = release_occupancy s1 oldRoomId in
                      if fails fault 6
                      then rollback s 500 (Message ''Error updating new room occupancy'')
                      else
                        let s3 = increment_occupancy s2 newRoomId in
                        if fails fault 7
                        then rollback s 500 (Message ''Error committing transfer'')
                        else (reply 200 (Transferred oldRoomId newRoomId), s3)))
      | _ \<Rightarrow> (reply 400 (Message ''student_id and new_room_id are required''), s))"

section \<open>Payments\<close>

text \<open>
  \<^verbatim>\<open>Math.round(x * 100) / 100\<close> as the server computes it: the product and the quotient
  are binary64 operations, so the result is not always the decimal rounding of \<open>x\<close>
  (for the binary64 value of 1.005 the product is 100.49999999999999 and the result 1).
\<close>

definition round2 :: "rat \<Rightarrow> rat" where
  "round2 x = js_div (of_int (Math_round (js_mul x 100))) 100"

text \<open>
  \<^verbatim>\<open>POST /payments/add\<close>. \<open>raw_student_id\<close> is the result of \<^verbatim>\<open>parseInt\<close>,
  \<open>raw_amount\<close> is the body's amount, \<open>None\<close> when the body has none; \<open>amountValue\<close> is
  \<^verbatim>\<open>Number(amount)\<close>, the binary64 value of a finite amount. Database calls: 1 student,
  2 and 3 the snapshot's queries, 4 insert, 5 and 6 the queries of the snapshot that is
  returned.
\<close>

definition payments_add :: "nat option \<Rightarrow> int \<Rightarrow> int option \<Rightarrow> jsnum option \<Rightarrow> db \<Rightarrow> response \<times> db" where
  "payments_add fault now raw_student_id raw_amount s =
     (case (raw_student_id, raw_amount) of
        (Some studentId, Some amountNumber) \<Rightarrow>
          if studentId = 0 then (reply 400 (Message ''Student and amount are required''), s)
          else (case amountNumber of
            Fin amountWritten \<Rightarrow>
              let amountValue = fl amountWritten in
              if amountValue \<le> 0 \<or> amountValue > MAX_MONTHLY_FEE
              then (reply 400 (Message ''Invalid payment amount (max 500000 PKR)''), s)
              else if fails fault 1 then (reply 500 (Message ''Error verifying student''), s)
              else if \<not> student_exists s studentId
              then (reply 404 (Message ''Student does not exist''), s)
              else (case buildFeeSnapshot (fails fault 2) (fails fault 3) s studentId now of
                Inl (st, msg) \<Rightarrow> (reply st (Message msg), s)
              | Inr snapshot \<Rightarrow>
                  let expected = round2 (total_payable snapshot);
                      provided = round2 amountValue in
                  if provided \<noteq> expected
                  then
                    let reason =
                      (if last_payment_date snapshot = None then FirstPaymentMustMatch
                       else if days_late snapshot > 0
                       then IncludesLateFee (fine snapshot) (days_late snapshot)
                       else MustMatchMonthlyFee)
                    in (reply 400 (ExpectedPayment expected reason), s)
                  else if fails fault 4 then (reply 500 (Message ''Error recording payment''), s)
                  else
                    let s1 = insert_payment s studentId expected (date_now now) in
                    (case buildFeeSnapshot (fails fault 5) (fails fault 6) s1 studentId now of
                       Inl _ \<Rightarrow> (reply 200 (PaymentRecorded (payments_seq s1) None), s1)
                     | Inr updatedSnapshot \<Rightarrow>
                         (reply 200 (PaymentRecorded (payments_seq s1) (Some updatedSnapshot)), s1)))
          | _ \<Rightarrow> (reply 400 (Message ''Invalid payment amount (max 500000 PKR)''), s))
      | _ \<Rightarrow> (reply 400 (Message ''Student and amount are required''), s))"

section \<open>Students\<close>

text \<open>
  \<^verbatim>\<open>POST /add-student\<close>. The verdict of \<^verbatim>\<open>validateStudentPayload\<close> (its error messages) and
  whether the CNIC is already present are inputs: both are about columns that no other
  modelled query reads. Database calls: 1 CNIC lookup, 2 insert.
\<close>

definition add_student :: "nat option \<Rightarrow> string list \<Rightarrow> bool \<Rightarrow> db \<Rightarrow> response \<times> db" where
  "add_student fault errors cnic_exists s =
     (if errors \<noteq> [] then (reply 400 (Errors errors), s)
      else if fails fault 1 then (reply 500 (Message ''Error validating student''), s)
      else if cnic_exists then (reply 409 (Message ''CNIC already exists''), s)
      else if fails fault 2 then (reply 500 (Message ''Error adding student''), s)
      else (reply 200 (Created ''Student added successfully'' (students_seq s + 1)),
            s\<lparr>students := students s @ [students_seq s + 1],
              students_seq := students_seq s + 1\<rparr>))"

text \<open>
  The loop \<^verbatim>\<open>updateRooms(index)\<close> of \<^verbatim>\<open>DELETE /students/:id\<close>: one update per allocation
  of the student, \<open>k\<close> being the number of the next database call. \<open>None\<close> when an
  update fails.
\<close>

fun updateRooms :: "nat option \<Rightarrow> nat \<Rightarrow> int list \<Rightarrow> db \<Rightarrow> db option" where
  "updateRooms fault k [] s = Some s"
| "updateRooms fault k (roomId # roomIds) s =
     (if fails fault k then None
      else updateRooms fault (Suc k) roomIds (decrement_occupied s roomId))"

text \<open>
  \<^verbatim>\<open>deleteDependentRows\<close>: allocations, payments, complaints and the student, \<open>k\<close> being
  the number of its first database call. The \<^verbatim>\<open>COMMIT\<close> has no error callback.
\<close>

definition deleteDependentRows :: "nat option \<Rightarrow> nat \<Rightarrow> db \<Rightarrow> int \<Rightarrow> db \<Rightarrow> response \<times> db" where
  "deleteDependentRows fault k saved studentId s =
     (if fails fault k then rollback saved 500 (Message ''Error deleting student'')
      else
        let s1 = s\<lparr>allocations := filter (\<lambda>a. alloc_student_id a \<noteq> studentId) (allocations s)\<rparr> in
        if fails fault (k + 1) then rollback saved 500 (Message ''Error deleting student'')
        else
          let s2 = s1\<lparr>payments := filter (\<lambda>p. pay_student_id p \<noteq> studentId) (payments s1)\<rparr> in
          if fails fault (k + 2) then rollback saved 500 (Message ''Error deleting student'')
          else if fails fault (k + 3) then rollback saved 500 (Message ''Error deleting student'')
          else (reply 200 (Message ''Student and related records deleted successfully''),
                s2\<lparr>students := filter (\<lambda>i. i \<noteq> studentId) (students s2)\<rparr>))"

text \<open>
  \<^verbatim>\<open>DELETE /students/:id\<close>. Database calls after \<^verbatim>\<open>BEGIN TRANSACTION\<close>: 1 student,
  2 allocations, then one per allocation, then the four deletions.
\<close>

definition delete_student :: "nat option \<Rightarrow> int option \<Rightarrow> db \<Rightarrow> response \<times> db" where
  "delete_student fault raw_student_id s =
     (case raw_student_id of
        Some studentId \<Rightarrow>
          if studentId = 0 then (reply 400 (Message ''Invalid student id''), s)
          else if fails fault 1 then rollback s 500 (Message ''Error deleting student'')
          else if \<not> student_exists s studentId
          then rollback s 404 (Message ''Student not found'')
          else if fails fault 2 then rollback s 500 (Message ''Error deleting student'')
          else
            let roomIds = map alloc_room_id (allocations_of s studentId) in
            (case updateRooms fault 3 roomIds s of
               None \<Rightarrow> rollback s 500 (Message ''Error deleting student'')
             | Some s1 \<Rightarrow> deleteDependentRows fault (3 + length roomIds) s studentId s1)
      | None \<Rightarrow> (reply 400 (Message ''Invalid student id''), s))"

section \<open>Rooms\<close>

definition ROOM_NUMBER_MAX_LENGTH :: nat where
  "ROOM_NUMBER_MAX_LENGTH = 12"

text \<open>
  The request body of the room handlers, field by field as \<open>validateRoomPayload\<close> first
  converts it: \<open>None\<close> for an undefined field; the room number as
  \<^verbatim>\<open>String(body.room_number).trim()\<close> paired with \<^verbatim>\<open>Number\<close> of that text; the numeric
  fields after \<^verbatim>\<open>Number(...)\<close>; the wifi flag after \<^verbatim>\<open>parseBoolean\<close>.
\<close>

record room_body =
  body_room_number :: "(string \<times> jsnum) option"
  body_room_type :: "string option"
  body_capacity :: "jsnum option"
  body_monthly_fee :: "jsnum option"
  body_floor_level :: "jsnum option"
  body_wifi_available :: "bool option"

record room_clean =
  clean_room_number :: "string option"
  clean_room_type :: "string option"
  clean_capacity :: "rat option"
  clean_monthly_fee :: "rat option"
  clean_floor_level :: "int option"
  clean_wifi_available :: "bool option"

text \<open>\<^verbatim>\<open>!Number.isNaN(n) && n < 0\<close>\<close>

definition negative_number :: "jsnum \<Rightarrow> bool" where
  "negative_number n = (case n of Fin q \<Rightarrow> q < 0 | NegInfinity \<Rightarrow> True | _ \<Rightarrow> False)"

text \<open>\<^verbatim>\<open>Number.isInteger\<close>, with the integer when it holds.\<close>

definition as_integer :: "jsnum \<Rightarrow> int option" where
  "as_integer n = (case n of Fin q \<Rightarrow> (if of_int \<lfloor>q\<rfloor> = q then Some \<lfloor>q\<rfloor> else None) | _ \<Rightarrow> None)"

definition validate_room_number :: "room_body \<Rightarrow> bool \<Rightarrow> string list" where
  "validate_room_number body requireAll =
     (case body_room_number body of
        Some (text, numericRoom) \<Rightarrow>
          if text = [] then [''Room number is required'']
          else if length text > ROOM_NUMBER_MAX_LENGTH
          then [''Room number must be under 12 characters'']
          else if negative_number numericRoom then [''Room number cannot be negative'']
          else []
      | None \<Rightarrow> if requireAll then [''Room number is required''] else [])"

definition validate_capacity :: "room_body \<Rightarrow> bool \<Rightarrow> string list \<times> rat option" where
  "validate_capacity body requireAll =
     (case body_capacity body of
        Some (Fin c) \<Rightarrow>
          let capacity = fl c in
          if capacity \<le> 0 \<or> capacity > MAX_ROOM_CAPACITY
          then ([''Capacity must be between 1 and 50''], None)
          else ([], Some capacity)
      | Some _ \<Rightarrow> ([''Capacity must be between 1 and 50''], None)
      | None \<Rightarrow> (if requireAll then [''Capacity is required''] else [], None))"

definition validate_monthly_fee :: "room_body \<Rightarrow> bool \<Rightarrow> string list \<times> rat option" where
  "validate_monthly_fee body requireAll =
     (case body_monthly_fee body of
        Some (Fin f) \<Rightarrow>
          let monthlyFee = fl f in
          if monthlyFee < 0 \<or> monthlyFee > MAX_MONTHLY_FEE
          then ([''Monthly fee must be between 0 and 500000 PKR''], None)
          else ([], Some monthlyFee)
      | Some _ \<Rightarrow> ([''Monthly fee must be between 0 and 500000 PKR''], None)
      | None \<Rightarrow> (if requireAll then [''Monthly fee is required''] else [], None))"

definition validate_floor_level :: "room_body \<Rightarrow> bool \<Rightarrow> string list \<times> int option" where
  "validate_floor_level body requireAll =
     (case body_floor_level body of
        Some n \<Rightarrow>
          (case as_integer n of
             Some f \<Rightarrow>
               if f < 0 \<or> f > 200 then ([''Floor must be an integer between 0 and 200''], None)
               else ([], Some f)
           | None \<Rightarrow> ([''Floor must be an integer between 0 and 200''], None))
      | None \<Rightarrow> ([], if requireAll then Some 0 else None))"

text \<open>
  \<open>validateRoomPayload\<close>: the messages in the source's order (room number, capacity,
  monthly fee, floor) and the cleaned fields.
\<close>

definition validateRoomPayload :: "room_body \<Rightarrow> bool \<Rightarrow> string list \<times> room_clean" where
  "validateRoomPayload body requireAll =
     (let (capacityErrors, cleanCapacity) = validate_capacity body requireAll;
          (feeErrors, cleanFee) = validate_monthly_fee body requireAll;
          (floorErrors, cleanFloor) = validate_floor_level body requireAll
      in (validate_room_number body requireAll @ capacityErrors @ feeErrors @ floorErrors,
          \<lparr>clean_room_number = map_option fst (body_room_number body),
           clean_room_type = body_room_type body,
           clean_capacity = cleanCapacity,
           clean_monthly_fee = cleanFee,
           clean_floor_level = cleanFloor,
           clean_wifi_available =
             (case body_wifi_available body of
                Some w \<Rightarrow> Some w
              | None \<Rightarrow> if requireAll then Some False else None)\<rparr>))"

text \<open>
  \<^verbatim>\<open>POST /rooms/add\<close>. Database calls: 1 room-number lookup, 2 insert. With
  \<^verbatim>\<open>requireAll\<close> an absent number, capacity or fee is a validation error, so the insert
  always has the three values; the last branch stands for the insert without them.
\<close>

definition rooms_add :: "nat option \<Rightarrow> room_body \<Rightarrow> db \<Rightarrow> response \<times> db" where
  "rooms_add fault body s =
     (let (errors, clean) = validateRoomPayload body True in
      if errors \<noteq> [] then (reply 400 (Errors errors), s)
      else (case (clean_room_number clean, clean_capacity clean, clean_monthly_fee clean) of
        (Some number, Some cap, Some fee) \<Rightarrow>
          if fails fault 1 then (reply 500 (Message ''Error validating room number''), s)
          else if filter (\<lambda>r. room_number r = number) (rooms s) \<noteq> []
          then (reply 400 (Message ''Room number already exists''), s)
          else if fails fault 2 then (reply 500 (Message ''Error adding room''), s)
          else (reply 200 (Created ''Room added successfully'' (rooms_seq s + 1)),
                s\<lparr>rooms := rooms s @
                     [\<lparr>room_id = rooms_seq s + 1,
                       room_number = number,
                       capacity = cap,
                       current_occupancy = 0,
                       floor_level = (case clean_floor_level clean of Some f \<Rightarrow> f | None \<Rightarrow> 0),
                       room_type = (case clean_room_type clean of
                                      Some t \<Rightarrow> if t = [] then ''Standard'' else t
                                    | None \<Rightarrow> ''Standard''),
                       monthly_fee = fee,
                       wifi_available = (case clean_wifi_available clean of
                                           Some w \<Rightarrow> w | None \<Rightarrow> False)\<rparr>],
                  rooms_seq := rooms_seq s + 1\<rparr>)
      | _ \<Rightarrow> (reply 500 (Message ''Error adding room''), s)))"

text \<open>The \<^verbatim>\<open>SET\<close> list of \<^verbatim>\<open>proceedUpdate\<close>: every defined field of \<open>clean\<close>.\<close>

definition apply_room_update :: "room_clean \<Rightarrow> room \<Rightarrow> room" where
  "apply_room_update clean r =
     r\<lparr>room_number := (case clean_room_number clean of Some v \<Rightarrow> v | None \<Rightarrow> room_number r),
       capacity := (case clean_capacity clean of Some v \<Rightarrow> v | None \<Rightarrow> capacity r),
       floor_level := (case clean_floor_level clean of Some v \<Rightarrow> v | None \<Rightarrow> floor_level r),
       room_type := (case clean_room_type clean of Some v \<Rightarrow> v | None \<Rightarrow> room_type r),
       monthly_fee := (case clean_monthly_fee clean of Some v \<Rightarrow> v | None \<Rightarrow> monthly_fee r),
       wifi_available :=
         (case clean_wifi_available clean of Some v \<Rightarrow> v | None \<Rightarrow> wifi_available r)\<rparr>"

text \<open>\<open>proceedUpdate\<close>, \<open>k\<close> being the number of its database call.\<close>

definition proceedUpdate :: "nat option \<Rightarrow> nat \<Rightarrow> room_clean \<Rightarrow> int \<Rightarrow> db \<Rightarrow> response \<times> db" where
  "proceedUpdate fault k clean roomId s =
     (if fails fault k then (reply 500 (Message ''Error updating room''), s)
      else if filter (\<lambda>r. room_id r = roomId) (rooms s) = []
      then (reply 404 (Message ''Room not found or no changes provided''), s)
      else (reply 200 (Message ''Room updated successfully''),
            s\<lparr>rooms := map (\<lambda>r. if room_id r = roomId then apply_room_update clean r else r)
                          (rooms s)\<rparr>))"

text \<open>\<^verbatim>\<open>!Object.keys(clean).length\<close>\<close>

definition no_updates :: "room_clean \<Rightarrow> bool" where
  "no_updates clean =
     (clean_room_number clean = None \<and> clean_room_type clean = None \<and>
      clean_capacity clean = None \<and> clean_monthly_fee clean = None \<and>
      clean_floor_level clean = None \<and> clean_wifi_available clean = None)"

text \<open>
  \<^verbatim>\<open>PUT /rooms/:id\<close>. Database calls: 1 room, then the room-number lookup when a number is
  given, then the update.
\<close>

definition rooms_put :: "nat option \<Rightarrow> int option \<Rightarrow> room_body \<Rightarrow> db \<Rightarrow> response \<times> db" where
  "rooms_put fault raw_room_id body s =
     (case raw_room_id of
        Some roomId \<Rightarrow>
          if roomId = 0 then (reply 400 (Message ''Invalid room id''), s)
          else
            let (errors, clean) = validateRoomPayload body False in
            if errors \<noteq> [] then (reply 400 (Errors errors), s)
            else if no_updates clean then (reply 400 (Message ''No updates provided''), s)
            else if fails fault 1 then (reply 500 (Message ''Error fetching room''), s)
            else (case room_by_id s roomId of
              None \<Rightarrow> (reply 404 (Message ''Room not found''), s)
            | Some room \<Rightarrow>
                if (case clean_capacity clean of
                      Some c \<Rightarrow> c < of_int (current_occupancy room) | None \<Rightarrow> False)
                then (reply 400 (Message ''Capacity cannot be less than current occupancy''), s)
                else (case clean_room_number clean of
                  Some number \<Rightarrow>
                    if number = [] then proceedUpdate fault 2 clean roomId s
                    else if fails fault 2
                    then (reply 500 (Message ''Error validating room number''), s)
                    else if filter (\<lambda>r. room_number r = number \<and> room_id r \<noteq> roomId) (rooms s) \<noteq> []
                    then (reply 400 (Message ''Room number already exists''), s)
                    else proceedUpdate fault 3 clean roomId s
                | None \<Rightarrow> proceedUpdate fault 2 clean roomId s))
      | None \<Rightarrow> (reply 400 (Message ''Invalid room id''), s))"

text \<open>\<^verbatim>\<open>DELETE /rooms/:id\<close>. Database calls: 1 room, 2 delete.\<close>

definition rooms_delete :: "nat option \<Rightarrow> int option \<Rightarrow> db \<Rightarrow> response \<times> db" where
  "rooms_delete fault raw_room_id s =
     (case raw_room_id of
        Some roomId \<Rightarrow>
          if roomId = 0 then (reply 400 (Message ''Invalid room id''), s)
          else if fails fault 1 then (reply 500 (Message ''Error deleting room''), s)
          else (case room_by_id s roomId of
            None \<Rightarrow> (reply 404 (Message ''Room not found''), s)
          | Some room \<Rightarrow>
              if current_occupancy room > 0
              then (reply 400 (Message ''Cannot delete a room with allocated students''), s)
              else if fails fault 2 then (reply 500 (Message ''Error deleting room''), s)
              else (reply 200 (Message ''Room deleted successfully''),
                    s\<lparr>rooms := filter (\<lambda>r. room_id r \<noteq> roomId) (rooms s)\<rparr>))
      | None \<Rightarrow> (reply 400 (Message ''Invalid room id''), s))"

section \<open>Requests and reachable databases\<close>

datatype request =
    AddStudent "string list" bool
  | DeleteStudent "int option"
  | Allocate "int option" "int option"
  | TransferRoom "int option" "int option"
  | PaymentsAdd "int option" "jsnum option"
  | RoomsAdd room_body
  | RoomsUpdate "int option" room_body
  | RoomsDelete "int option"

text \<open>One request, served at clock \<open>now\<close> with storage fault \<open>fault\<close>.\<close>

fun handle :: "nat option \<Rightarrow> int \<Rightarrow> request \<Rightarrow> db \<Rightarrow> response \<times> db" where
  "handle fault now (AddStudent errors cnic_exists) s = add_student fault errors cnic_exists s"
| "handle fault now (DeleteStudent i) s = delete_student fault i s"
| "handle fault now (Allocate i r) s = allocate fault now i r s"
| "handle fault now (TransferRoom i r) s = transfer fault now i r s"
| "handle fault now (PaymentsAdd i a) s = payments_add fault now i a s"
| "handle fault now (RoomsAdd body) s = rooms_add fault body s"
| "handle fault now (RoomsUpdate r body) s = rooms_put fault r body s"
| "handle fault now (RoomsDelete r) s = rooms_delete fault r s"

text \<open>The databases the server can hold: the empty one, and what a request leaves.\<close>

inductive reachable :: "db \<Rightarrow> bool" where
  reachable_empty: "reachable empty_db"
| reachable_handle: "reachable s \<Longrightarrow> reachable (snd (handle fault now req s))"

text \<open>A run of fault-free requests, each with its clock.\<close>

fun run :: "(int \<times> request) list \<Rightarrow> db \<Rightarrow> db" where
  "run [] s = s"
| "run ((now, req) # rest) s = run rest (snd (handle None now req s))"

text \<open>Every room holds between zero occupants and its capacity.\<close>

definition occupancy_bounded :: "db \<Rightarrow> bool" where
  "occupancy_bounded s =
     list_all (\<lambda>r. 0 \<le> current_occupancy r \<and> of_int (current_occupancy r) \<le> capacity r) (rooms s)"

text \<open>No student has two rows in Allocations.\<close>

definition single_allocation :: "db \<Rightarrow> bool" where
  "single_allocation s = distinct (map alloc_student_id (allocations s))"

section \<open>Whole-number capacities and sequences of requests\<close>

text \<open>\<^verbatim>\<open>Number.isInteger\<close> of a finite number.\<close>

definition whole :: "rat \<Rightarrow> bool" where
  "whole q = (of_int \<lfloor>q\<rfloor> = q)"

text \<open>A request that, if it sets a room's capacity, sets it to a whole number
  (\<^verbatim>\<open>Number(body.capacity)\<close> is one).\<close>

fun asks_whole_capacity :: "request \<Rightarrow> bool" where
  "asks_whole_capacity (RoomsAdd body) =
     (case body_capacity body of Some (Fin c) \<Rightarrow> whole (fl c) | _ \<Rightarrow> True)"
| "asks_whole_capacity (RoomsUpdate i body) =
     (case body_capacity body of Some (Fin c) \<Rightarrow> whole (fl c) | _ \<Rightarrow> True)"
| "asks_whole_capacity _ = True"

text \<open>
  The rooms table is in order: room ids are distinct and at most the sequence counter,
  capacities are whole numbers, and every occupancy lies between 0 and the capacity.
\<close>

definition ledger_ok :: "db \<Rightarrow> bool" where
  "ledger_ok s =
     (distinct (map room_id (rooms s)) \<and>
      list_all (\<lambda>r. room_id r \<le> rooms_seq s \<and> whole (capacity r)) (rooms s) \<and>
      occupancy_bounded s)"

text \<open>A sequence of requests, each with its storage fault and its clock.\<close>

fun serve :: "(nat option \<times> int \<times> request) list \<Rightarrow> db \<Rightarrow> db" where
  "serve [] s = s"
| "serve ((fault, now, req) # rest) s = serve rest (snd (handle fault now req s))"

text \<open>The clocks of a sequence of requests never go back, starting from \<open>t\<close>.\<close>

fun clock_monotone :: "int \<Rightarrow> (nat option \<times> int \<times> request) list \<Rightarrow> bool" where
  "clock_monotone t [] = True"
| "clock_monotone t ((fault, now, req) # rest) = (t \<le> now \<and> clock_monotone now rest)"

text \<open>The clock of the last request of a sequence, \<open>t\<close> for the empty one.\<close>

fun last_clock :: "int \<Rightarrow> (nat option \<times> int \<times> request) list \<Rightarrow> int" where
  "last_clock t [] = t"
| "last_clock t ((fault, now, req) # rest) = last_clock now rest"

section \<open>Example databases\<close>

text \<open>
  Student 1 lives in room 1 (two beds, 5000 a month) since day 19990; student 2 has no
  room. In \<open>paid_db\<close> student 1 last paid on day 20000.
\<close>

definition demo_room :: room where
  "demo_room = \<lparr>room_id = 1, room_number = ''A1'', capacity = 2, current_occupancy = 1,
     floor_level = 0, room_type = ''Standard'', monthly_fee = 5000, wifi_available = False\<rparr>"

definition demo_allocation :: allocation where
  "demo_allocation = \<lparr>allocation_id = 1, alloc_student_id = 1, alloc_room_id = 1,
     allocation_date = 19990\<rparr>"

definition unpaid_db :: db where
  "unpaid_db = \<lparr>students = [1, 2], rooms = [demo_room], allocations = [demo_allocation],
     payments = [], students_seq = 2, rooms_seq = 1, allocations_seq = 1, payments_seq = 0\<rparr>"

definition paid_db :: db where
  "paid_db = unpaid_db\<lparr>payments := [\<lparr>payment_id = 1, pay_student_id = 1, amount = 5000,
     pay_date = 20000\<rparr>], payments_seq := 1\<rparr>"


text \<open>
  \<open>two_room_db\<close>: as \<open>paid_db\<close>, with a second room of one free bed. \<open>full_room_db\<close>:
  room 1 has a single bed, taken by student 1.
\<close>

definition spare_room :: room where
  "spare_room = \<lparr>room_id = 2, room_number = ''B1'', capacity = 1, current_occupancy = 0,
     floor_level = 1, room_type = ''Single'', monthly_fee = 3000, wifi_available = True\<rparr>"

definition two_room_db :: db where
  "two_room_db = paid_db\<lparr>rooms := [demo_room, spare_room], rooms_seq := 2\<rparr>"

definition full_room_db :: db where
  "full_room_db = unpaid_db\<lparr>rooms := [demo_room\<lparr>capacity := 1\<rparr>]\<rparr>"

text \<open>
  \<open>pricey_db\<close>: as \<open>paid_db\<close>, the room's monthly fee being 499900.001, a value
  \<open>validateRoomPayload\<close> admits.
\<close>

definition pricey_db :: db where
  "pricey_db = paid_db\<lparr>rooms := [demo_room\<lparr>monthly_fee := 499900001 / 1000\<rparr>]\<rparr>"

text \<open>
  A run from the empty database: a room is created with capacity 2.5, three students
  are added, and each is allocated to the room.
\<close>

definition half_bed_body :: room_body where
  "half_bed_body = \<lparr>body_room_number = Some (''C1'', NaN), body_room_type = None,
     body_capacity = Some (Fin (5 / 2)), body_monthly_fee = Some (Fin 4000),
     body_floor_level = None, body_wifi_available = None\<rparr>"

definition fractional_run :: "(int \<times> request) list" where
  "fractional_run =
     [(0, RoomsAdd half_bed_body),
      (0, AddStudent [] False), (0, AddStudent [] False), (0, AddStudent [] False),
      (0, Allocate (Some 1) (Some 1)), (0, Allocate (Some 2) (Some 1)),
      (0, Allocate (Some 3) (Some 1))]"

definition crowded_db :: db where
  "crowded_db =
     \<lparr>students = [1, 2, 3],
      rooms = [\<lparr>room_id = 1, room_number = ''C1'', capacity = 5 / 2, current_occupancy = 3,
                floor_level = 0, room_type = ''Standard'', monthly_fee = 4000,
                wifi_available = False\<rparr>],
      allocations =
        [\<lparr>allocation_id = 1, alloc_student_id = 1, alloc_room_id = 1, allocation_date = 0\<rparr>,
         \<lparr>allocation_id = 2, alloc_student_id = 2, alloc_room_id = 1, allocation_date = 0\<rparr>,
         \<lparr>allocation_id = 3, alloc_student_id = 3, alloc_room_id = 1, allocation_date = 0\<rparr>],
      payments = [],
      students_seq = 3, rooms_seq = 1, allocations_seq = 3, payments_seq = 0\<rparr>"

text \<open>
  An orderly sequence of requests: a room of two beds is created, a student is added,
  allocated to the room, and pays the first month a day later.
\<close>

definition orderly_requests :: "(nat option \<times> int \<times> request) list" where
  "orderly_requests =
     [(None, 20000 * DAY_MS, RoomsAdd (half_bed_body\<lparr>body_capacity := Some (Fin 2)\<rparr>)),
      (None, 20000 * DAY_MS, AddStudent [] False),
      (None, 20000 * DAY_MS + 5, Allocate (Some 1) (Some 1)),
      (None, 20001 * DAY_MS, PaymentsAdd (Some 1) (Some (Fin 4000)))]"

text \<open>
  The requests that lead from the empty database to \<open>unpaid_db\<close> and \<open>paid_db\<close>, and
  the same with another monthly fee: a room created with fee 0 (\<open>zero_fee_db\<close>), or
  the fee of room 1 changed after the payment to 0 (\<open>zero_fee_paid_db\<close>) or to 500000
  (\<open>capped_db\<close>).
\<close>

definition demo_body :: room_body where
  "demo_body = \<lparr>body_room_number = Some (''A1'', NaN), body_room_type = None,
     body_capacity = Some (Fin 2), body_monthly_fee = Some (Fin 5000),
     body_floor_level = None, body_wifi_available = None\<rparr>"

definition fee_update :: "rat \<Rightarrow> room_body" where
  "fee_update f = \<lparr>body_room_number = None, body_room_type = None, body_capacity = None,
     body_monthly_fee = Some (Fin f), body_floor_level = None, body_wifi_available = None\<rparr>"

definition unpaid_requests :: "(int \<times> request) list" where
  "unpaid_requests =
     [(0, RoomsAdd demo_body), (0, AddStudent [] False), (0, AddStudent [] False),
      (19990 * DAY_MS, Allocate (Some 1) (Some 1))]"

definition paid_requests :: "(int \<times> request) list" where
  "paid_requests = unpaid_requests @ [(20000 * DAY_MS, PaymentsAdd (Some 1) (Some (Fin 5000)))]"

definition zero_fee_requests :: "(int \<times> request) list" where
  "zero_fee_requests =
     [(0, RoomsAdd (demo_body\<lparr>body_monthly_fee := Some (Fin 0)\<rparr>)),
      (0, AddStudent [] False), (0, AddStudent [] False),
      (19990 * DAY_MS, Allocate (Some 1) (Some 1))]"

definition zero_fee_paid_requests :: "(int \<times> request) list" where
  "zero_fee_paid_requests = paid_requests @ [(20001 * DAY_MS, RoomsUpdate (Some 1) (fee_update 0))]"

definition capped_requests :: "(int \<times> request) list" where
  "capped_requests =
     paid_requests @ [(20001 * DAY_MS, RoomsUpdate (Some 1) (fee_update 500000))]"

definition zero_fee_db :: db where
  "zero_fee_db = unpaid_db\<lparr>rooms := [demo_room\<lparr>monthly_fee := 0\<rparr>]\<rparr>"

definition zero_fee_paid_db :: db where
  "zero_fee_paid_db = paid_db\<lparr>rooms := [demo_room\<lparr>monthly_fee := 0\<rparr>]\<rparr>"

definition capped_db :: db where
  "capped_db = paid_db\<lparr>rooms := [demo_room\<lparr>monthly_fee := 500000\<rparr>]\<rparr>"

section \<open>Properties of binary64 rounding\<close>

lemma rne_of_int [simp]: "rne (of_int n) = n"
  by (simp add: rne_def)

lemma rne_ge_floor: "\<lfloor>x\<rfloor> \<le> rne x"
  by (simp add: rne_def Let_def)

lemma rne_le_floor_Suc: "rne x \<le> \<lfloor>x\<rfloor> + 1"
  by (simp add: rne_def Let_def)

lemma rne_mono:
  assumes "x \<le> y"
  shows "rne x \<le> rne y"
proof (cases "\<lfloor>x\<rfloor> < \<lfloor>y\<rfloor>")
  case True
  have "rne x \<le> \<lfloor>x\<rfloor> + 1"
    by (rule rne_le_floor_Suc)
  also have "\<dots> \<le> \<lfloor>y\<rfloor>"
    using True by simp
  also have "\<dots> \<le> rne y"
    by (rule rne_ge_floor)
  finally show ?thesis .
next
  case False
  with floor_mono [OF assms] have same: "\<lfloor>x\<rfloor> = \<lfloor>y\<rfloor>"
    by simp
  with assms have "x - of_int \<lfloor>y\<rfloor> \<le> y - of_int \<lfloor>y\<rfloor>"
    by simp
  then show ?thesis
    by (simp add: rne_def Let_def same)
qed

lemma rne_nonneg: "0 \<le> x \<Longrightarrow> 0 \<le> rne x"
  using rne_mono [of 0 x] rne_of_int [of 0] by simp

lemma two_power_int_pos [simp]: "0 < power_int (2::rat) n"
  by (simp add: power_int_def)

lemma two_power_int_mono: "m \<le> n \<Longrightarrow> power_int (2::rat) m \<le> power_int 2 n"
  by (rule power_int_increasing) simp_all

lemma two_power_int_add: "power_int (2::rat) (m + n) = power_int 2 m * power_int 2 n"
  by (rule power_int_add) simp

lemma two_power_int_nat: "0 \<le> n \<Longrightarrow> power_int (2::rat) n = of_int (2 ^ nat n)"
  by (simp add: power_int_nonneg_exp)

lemma exponent_bounds:
  assumes "0 < x"
  shows "power_int 2 (exponent x) \<le> x" and "x < power_int 2 (exponent x + 1)"
proof -
  have "power_int 2 (exponent x) \<le> x \<and> x < power_int 2 (exponent x + 1)"
  proof (cases "1 \<le> x")
    case True
    let ?n = "\<lfloor>x\<rfloor>"
    let ?b = "bitlen ?n"
    from True have n: "0 < ?n"
      by simp
    from bitlen_bounds [OF n] have lo: "2 ^ nat (?b - 1) \<le> ?n" and hi: "?n < 2 ^ nat ?b"
      by simp_all
    from n have b: "1 \<le> ?b"
      using bitlen_eq_zero_iff [of ?n] bitlen_nonneg [of ?n] by linarith
    have e: "exponent x = ?b - 1"
      using True by (simp add: exponent_def)
    have "power_int (2::rat) (?b - 1) = of_int (2 ^ nat (?b - 1))"
      using b by (simp add: two_power_int_nat)
    also have "\<dots> \<le> of_int ?n"
      using lo by (simp only: of_int_le_iff)
    also have "\<dots> \<le> x"
      by simp
    finally have low: "power_int 2 (exponent x) \<le> x"
      by (simp add: e)
    from hi have "?n + 1 \<le> 2 ^ nat ?b"
      by simp
    then have "(of_int (?n + 1) :: rat) \<le> of_int (2 ^ nat ?b)"
      by (simp only: of_int_le_iff)
    moreover have "x < of_int (?n + 1)"
      by simp linarith
    moreover have "power_int (2::rat) ?b = of_int (2 ^ nat ?b)"
      using b by (simp add: two_power_int_nat)
    ultimately have "x < power_int 2 (exponent x + 1)"
      by (simp add: e)
    with low show ?thesis ..
  next
    case False
    let ?m = "\<lceil>1 / x\<rceil>"
    let ?j = "bitlen (?m - 1)"
    from False assms have inv: "1 < 1 / x"
      by simp
    then have m: "0 < ?m - 1"
      by (simp add: less_ceiling_iff)
    from bitlen_bounds [OF m] have lo: "2 ^ nat (?j - 1) \<le> ?m - 1" and hi: "?m - 1 < 2 ^ nat ?j"
      by simp_all
    from m have j: "1 \<le> ?j"
      using bitlen_eq_zero_iff [of "?m - 1"] bitlen_nonneg [of "?m - 1"] by linarith
    have e: "exponent x = - ?j"
      using False by (simp add: exponent_def)
    have pj: "power_int (2::rat) ?j = of_int (2 ^ nat ?j)"
      using j by (simp add: two_power_int_nat)
    have pj1: "power_int (2::rat) (?j - 1) = of_int (2 ^ nat (?j - 1))"
      using j by (simp add: two_power_int_nat)
    from hi have "?m \<le> 2 ^ nat ?j"
      by simp
    then have mj: "(of_int ?m :: rat) \<le> of_int (2 ^ nat ?j)"
      by (simp only: of_int_le_iff)
    have "1 / x \<le> of_int ?m"
      by (rule le_of_int_ceiling)
    also note mj
    also note pj [symmetric]
    finally have "1 / x \<le> power_int 2 ?j" .
    then have "1 \<le> power_int 2 ?j * x"
      using assms by (simp add: field_simps)
    then have "1 / power_int 2 ?j \<le> x"
      by (simp add: field_simps)
    then have low: "power_int 2 (exponent x) \<le> x"
      by (simp add: e power_int_minus_divide)
    have "(of_int (2 ^ nat (?j - 1)) :: rat) \<le> of_int (?m - 1)"
      using lo by (simp only: of_int_le_iff)
    also have "of_int (?m - 1) < 1 / x"
      using ceiling_correct [of "1 / x"] by simp
    finally have "power_int 2 (?j - 1) < 1 / x"
      unfolding pj1 .
    then have "power_int 2 (?j - 1) * x < 1"
      using assms by (simp add: field_simps)
    then have "x < 1 / power_int 2 (?j - 1)"
      by (simp add: field_simps)
    also have "1 / power_int (2::rat) (?j - 1) = power_int 2 (- (?j - 1))"
      by (rule power_int_minus_divide [symmetric])
    finally have "x < power_int 2 (exponent x + 1)"
      by (simp add: e)
    with low show ?thesis ..
  qed
  then show "power_int 2 (exponent x) \<le> x" and "x < power_int 2 (exponent x + 1)"
    by simp_all
qed

lemma exponent_less:
  assumes "0 < x" and "x < power_int 2 n"
  shows "exponent x < n"
proof (rule ccontr)
  assume "\<not> exponent x < n"
  then have "power_int (2::rat) n \<le> power_int 2 (exponent x)"
    by (intro two_power_int_mono) simp
  with exponent_bounds(1) [OF assms(1)] assms(2) show False
    by simp
qed

lemma exponent_ge:
  assumes "power_int 2 n \<le> x"
  shows "n \<le> exponent x"
proof (rule ccontr)
  have pos: "0 < x"
    by (rule less_le_trans [OF two_power_int_pos assms])
  assume "\<not> n \<le> exponent x"
  then have "power_int (2::rat) (exponent x + 1) \<le> power_int 2 n"
    by (intro two_power_int_mono) simp
  with exponent_bounds(2) [OF pos] assms show False
    by simp
qed

lemma exponent_mono: "0 < x \<Longrightarrow> x \<le> y \<Longrightarrow> exponent x \<le> exponent y"
  using exponent_bounds(1) [of x] by (intro exponent_ge) simp

lemma ulp_exponent_mono: "0 < x \<Longrightarrow> x \<le> y \<Longrightarrow> ulp_exponent x \<le> ulp_exponent y"
  using exponent_mono [of x y] by (simp add: ulp_exponent_def)


lemma fl_pos_zero [simp]: "fl_pos 0 = 0"
  by (simp add: fl_pos_def)

lemma fl_pos_nonneg: "0 \<le> x \<Longrightarrow> 0 \<le> fl_pos x"
  by (simp add: fl_pos_def rne_nonneg)

text \<open>A number below the next binade is rounded to at most that power of two.\<close>

lemma fl_pos_upper:
  assumes "0 < x"
  shows "fl_pos x \<le> power_int 2 (ulp_exponent x + 53)"
proof -
  let ?E = "ulp_exponent x"
  have "exponent x + 1 \<le> ?E + 53"
    by (simp add: ulp_exponent_def)
  then have "power_int (2::rat) (exponent x + 1) \<le> power_int 2 (?E + 53)"
    by (rule two_power_int_mono)
  with exponent_bounds(2) [OF assms] have "x \<le> power_int 2 ?E * power_int 2 53"
    by (simp add: two_power_int_add)
  then have "x / power_int 2 ?E \<le> of_int (2 ^ 53)"
    by (simp add: field_simps)
  from rne_mono [OF this] have "rne (x / power_int 2 ?E) \<le> 2 ^ 53"
    by (simp only: rne_of_int)
  then have "(of_int (rne (x / power_int 2 ?E)) :: rat) \<le> of_int (2 ^ 53)"
    by (simp only: of_int_le_iff)
  then have "of_int (rne (x / power_int 2 ?E)) * power_int (2::rat) ?E
      \<le> of_int (2 ^ 53) * power_int 2 ?E"
    by (intro mult_right_mono) simp_all
  with assms show ?thesis
    by (simp add: fl_pos_def two_power_int_add mult.commute)
qed

text \<open>A normal number is rounded to at least the power of two that opens its binade.\<close>

lemma fl_pos_lower:
  assumes "0 < x" and "- 1074 < ulp_exponent x"
  shows "power_int 2 (ulp_exponent x + 52) \<le> fl_pos x"
proof -
  let ?E = "ulp_exponent x"
  from assms(2) have E: "?E + 52 = exponent x"
    by (simp add: ulp_exponent_def max_def split: if_splits)
  with exponent_bounds(1) [OF assms(1)] have "power_int 2 (?E + 52) \<le> x"
    by simp
  then have "power_int 2 ?E * power_int 2 52 \<le> x"
    by (simp only: two_power_int_add)
  then have "of_int (2 ^ 52) \<le> x / power_int 2 ?E"
    by (simp add: field_simps)
  from rne_mono [OF this] have "2 ^ 52 \<le> rne (x / power_int 2 ?E)"
    by (simp only: rne_of_int)
  then have "(of_int (2 ^ 52) :: rat) \<le> of_int (rne (x / power_int 2 ?E))"
    by (simp only: of_int_le_iff)
  then have "of_int (2 ^ 52) * power_int (2::rat) ?E
      \<le> of_int (rne (x / power_int 2 ?E)) * power_int 2 ?E"
    by (intro mult_right_mono) simp_all
  with assms(1) show ?thesis
    by (simp add: fl_pos_def two_power_int_add mult.commute)
qed

lemma fl_pos_mono:
  assumes "0 \<le> x" and "x \<le> y"
  shows "fl_pos x \<le> fl_pos y"
proof (cases "x = 0")
  case True
  with assms show ?thesis
    by (simp add: fl_pos_nonneg)
next
  case False
  with assms have x: "0 < x" and y: "0 < y"
    by simp_all
  from ulp_exponent_mono [OF x assms(2)] have le: "ulp_exponent x \<le> ulp_exponent y" .
  show ?thesis
  proof (cases "ulp_exponent x = ulp_exponent y")
    case True
    have "x / power_int 2 (ulp_exponent y) \<le> y / power_int 2 (ulp_exponent y)"
      using assms(2) by (simp add: divide_right_mono)
    from rne_mono [OF this]
    have "(of_int (rne (x / power_int 2 (ulp_exponent y))) :: rat)
        \<le> of_int (rne (y / power_int 2 (ulp_exponent y)))"
      by (simp only: of_int_le_iff)
    then have "of_int (rne (x / power_int 2 (ulp_exponent y))) * power_int 2 (ulp_exponent y)
        \<le> of_int (rne (y / power_int 2 (ulp_exponent y))) * power_int (2::rat) (ulp_exponent y)"
      by (intro mult_right_mono) simp_all
    with x y True show ?thesis
      by (simp add: fl_pos_def)
  next
    case False
    with le have less: "ulp_exponent x < ulp_exponent y"
      by simp
    have "- 1074 \<le> ulp_exponent x"
      by (simp add: ulp_exponent_def)
    with less have normal: "- 1074 < ulp_exponent y"
      by simp
    have "fl_pos x \<le> power_int 2 (ulp_exponent x + 53)"
      by (rule fl_pos_upper [OF x])
    also have "\<dots> \<le> power_int 2 (ulp_exponent y + 52)"
      using less by (intro two_power_int_mono) simp
    also have "\<dots> \<le> fl_pos y"
      by (rule fl_pos_lower [OF y normal])
    finally show ?thesis .
  qed
qed

text \<open>A multiple of a power of two that is no finer than the unit in the last place is kept.\<close>

lemma fl_pos_exact:
  assumes "y = of_int k * power_int 2 E" and "ulp_exponent y \<le> E"
  shows "fl_pos y = y"
proof (cases "y = 0")
  case True
  then show ?thesis by simp
next
  case False
  define E' where "E' = ulp_exponent y"
  from assms(2) have d: "0 \<le> E - E'"
    by (simp add: E'_def)
  have "power_int (2::rat) E = power_int 2 (E - E' + E')"
    by simp
  also have "\<dots> = power_int 2 (E - E') * power_int 2 E'"
    by (rule two_power_int_add)
  finally have "y = of_int k * power_int 2 (E - E') * power_int 2 E'"
    by (simp add: assms(1))
  then have "y / power_int 2 E' = of_int k * power_int 2 (E - E')"
    by simp
  also have "\<dots> = of_int (k * 2 ^ nat (E - E'))"
    using d by (simp add: two_power_int_nat)
  finally have q: "y / power_int 2 E' = of_int (k * 2 ^ nat (E - E'))" .
  have "of_int (rne (y / power_int 2 E')) * power_int 2 E' = (y / power_int 2 E') * power_int 2 E'"
    unfolding q by (simp only: rne_of_int)
  also have "\<dots> = y"
    by simp
  finally show ?thesis
    using False by (simp add: fl_pos_def E'_def)
qed

lemma fl_pos_idem:
  assumes "0 \<le> x"
  shows "fl_pos (fl_pos x) = fl_pos x"
proof (cases "fl_pos x = 0")
  case True
  then show ?thesis by simp
next
  case False
  then have x: "0 < x"
    using assms by (cases "x = 0") simp_all
  let ?E = "ulp_exponent x"
  let ?k = "rne (x / power_int 2 ?E)"
  have y: "fl_pos x = of_int ?k * power_int 2 ?E"
    using x by (simp add: fl_pos_def)
  have pos: "0 < fl_pos x"
    using False fl_pos_nonneg [OF assms] by simp
  show ?thesis
  proof (cases "fl_pos x < power_int 2 (?E + 53)")
    case True
    from exponent_less [OF pos True] have "exponent (fl_pos x) - 52 \<le> ?E"
      by simp
    moreover have "- 1074 \<le> ?E"
      by (simp add: ulp_exponent_def)
    ultimately have "ulp_exponent (fl_pos x) \<le> ?E"
      by (simp add: ulp_exponent_def)
    from fl_pos_exact [OF y this] show ?thesis .
  next
    case False
    with fl_pos_upper [OF x] have top: "fl_pos x = power_int 2 (?E + 53)"
      by simp
    then have rep: "fl_pos x = of_int (2 ^ 52) * power_int 2 (?E + 1)"
      by (simp add: two_power_int_add)
    have "fl_pos x < power_int 2 (?E + 54)"
      unfolding top by (rule power_int_strict_increasing) simp_all
    from exponent_less [OF pos this] have "exponent (fl_pos x) - 52 \<le> ?E + 1"
      by simp
    moreover have "- 1074 \<le> ?E + 1"
      by (simp add: ulp_exponent_def)
    ultimately have "ulp_exponent (fl_pos x) \<le> ?E + 1"
      by (simp add: ulp_exponent_def)
    from fl_pos_exact [OF rep this] show ?thesis .
  qed
qed

lemma fl_pos_of_int:
  assumes "0 \<le> n" and "n < 2 ^ 53"
  shows "fl_pos (of_int n) = of_int n"
proof (cases "n = 0")
  case True
  then show ?thesis by simp
next
  case False
  with assms have pos: "(0::rat) < of_int n"
    by simp
  have "(of_int n :: rat) < of_int (2 ^ 53)"
    using assms(2) by (simp only: of_int_less_iff)
  then have "(of_int n :: rat) < power_int 2 53"
    by simp
  from exponent_less [OF pos this] have "ulp_exponent (of_int n) \<le> 0"
    by (simp add: ulp_exponent_def)
  then show ?thesis
    by (intro fl_pos_exact [where k = n]) simp_all
qed

lemma fl_zero [simp]: "fl 0 = 0"
  by (simp add: fl_def)

lemma fl_nonneg: "0 \<le> x \<Longrightarrow> 0 \<le> fl x"
  by (simp add: fl_def fl_pos_nonneg)

lemma fl_nonpos: "x \<le> 0 \<Longrightarrow> fl x \<le> 0"
  using fl_pos_nonneg [of "- x"] by (simp add: fl_def)

lemma fl_mono:
  assumes "x \<le> y"
  shows "fl x \<le> fl y"
proof (cases "x < 0")
  case x: True
  show ?thesis
  proof (cases "y < 0")
    case True
    from assms True have "fl_pos (- y) \<le> fl_pos (- x)"
      by (intro fl_pos_mono) simp_all
    with x True show ?thesis
      by (simp add: fl_def)
  next
    case False
    with x fl_nonpos [of x] fl_nonneg [of y] show ?thesis
      by simp
  qed
next
  case False
  with assms show ?thesis
    by (simp add: fl_def fl_pos_mono)
qed

lemma fl_idem [simp]: "fl (fl x) = fl x"
proof (cases "x < 0")
  case True
  then have nonneg: "0 \<le> - x"
    by simp
  show ?thesis
  proof (cases "fl_pos (- x) = 0")
    case zero: True
    with True show ?thesis
      by (simp add: fl_def)
  next
    case False
    with fl_pos_nonneg [OF nonneg] have "- fl_pos (- x) < 0"
      by simp
    with True show ?thesis
      by (simp add: fl_def fl_pos_idem [OF nonneg])
  qed
next
  case False
  then have nonneg: "0 \<le> x"
    by simp
  from fl_pos_nonneg [OF nonneg] have "\<not> fl_pos x < 0"
    by simp
  with False show ?thesis
    by (simp add: fl_def fl_pos_idem [OF nonneg])
qed

lemma fl_of_int:
  assumes "\<bar>n\<bar> < 2 ^ 53"
  shows "fl (of_int n) = of_int n"
proof (cases "n < 0")
  case True
  with assms have "fl_pos (of_int (- n)) = of_int (- n)"
    by (intro fl_pos_of_int) simp_all
  with True show ?thesis
    by (simp add: fl_def)
next
  case False
  with assms have "fl_pos (of_int n) = of_int n"
    by (intro fl_pos_of_int) simp_all
  with False show ?thesis
    by (simp add: fl_def)
qed

lemma fl_numeral [simp]:
  assumes "(numeral k :: int) < 9007199254740992"
  shows "fl (numeral k) = numeral k"
proof -
  have p: "(2::int) ^ 53 = 9007199254740992"
    by simp
  have "\<bar>numeral k :: int\<bar> = numeral k"
    by simp
  also have "\<dots> < 2 ^ 53"
    unfolding p by (rule assms)
  finally have "\<bar>numeral k :: int\<bar> < 2 ^ 53" .
  from fl_of_int [OF this] show ?thesis
    by simp
qed

lemma fl_one [simp]: "fl 1 = 1"
  using fl_of_int [of 1] by simp

lemma js_add_zero [simp]: "js_add x 0 = fl x"
  by (simp add: js_add_def)

lemma js_add_whole:
  "\<bar>a\<bar> < 2 ^ 53 \<Longrightarrow> \<bar>a + b\<bar> < 2 ^ 53 \<Longrightarrow>
   js_add (fl (of_int a)) (of_int b) = of_int (a + b)"
  using fl_of_int [of "a + b"] by (simp add: js_add_def fl_of_int)

lemma Math_round_of_int [simp]: "Math_round (of_int n) = n"
proof -
  have "\<lfloor>(of_int n :: rat) + 1 / 2\<rfloor> = n"
    by (rule floor_unique) simp_all
  then show ?thesis
    by (simp add: Math_round_def)
qed

lemma Math_round_mono: "x \<le> y \<Longrightarrow> Math_round x \<le> Math_round y"
  by (simp add: Math_round_def floor_mono)

lemma round2_mono: "x \<le> y \<Longrightarrow> round2 x \<le> round2 y"
  unfolding round2_def js_div_def js_mul_def
  by (intro fl_mono divide_right_mono iffD2 [OF of_int_le_iff] Math_round_mono) simp_all

lemma round2_whole:
  assumes "\<bar>n\<bar> * 100 < 2 ^ 53"
  shows "round2 (of_int n) = of_int n"
proof -
  from assms have small: "\<bar>n * 100\<bar> < 2 ^ 53" "\<bar>n\<bar> < 2 ^ 53"
    by (simp_all add: abs_mult)
  have "js_mul (of_int n) 100 = fl (of_int (n * 100))"
    by (simp add: js_mul_def)
  also have "\<dots> = of_int (n * 100)"
    by (rule fl_of_int [OF small(1)])
  finally have "round2 (of_int n) = js_div (of_int (n * 100)) 100"
    by (simp only: round2_def Math_round_of_int)
  also have "\<dots> = fl (of_int n)"
    by (simp add: js_div_def)
  also have "\<dots> = of_int n"
    by (rule fl_of_int [OF small(2)])
  finally show ?thesis .
qed

lemma round2_numeral [simp]:
  assumes "(numeral k :: int) < 90071992547409"
  shows "round2 (numeral k) = numeral k"
proof -
  have p: "(2::int) ^ 53 = 9007199254740992"
    by simp
  have "\<bar>numeral k :: int\<bar> * 100 = numeral k * 100"
    by simp
  also have "\<dots> < 9007199254740992"
    using assms by linarith
  finally have "\<bar>numeral k :: int\<bar> * 100 < 2 ^ 53"
    unfolding p .
  from round2_whole [OF this] show ?thesis
    by simp
qed

section \<open>The example databases are reachable\<close>

lemma run_append: "run (xs @ ys) s = run ys (run xs s)"
  by (induction xs arbitrary: s) auto

lemma unpaid_requests_result: "run unpaid_requests empty_db = unpaid_db"
  by (simp add: unpaid_requests_def empty_db_def unpaid_db_def demo_body_def demo_room_def
      demo_allocation_def
      rooms_add_def validateRoomPayload_def validate_room_number_def validate_capacity_def
      validate_monthly_fee_def validate_floor_level_def negative_number_def
      ROOM_NUMBER_MAX_LENGTH_def MAX_ROOM_CAPACITY_def MAX_MONTHLY_FEE_def
      add_student_def allocate_def fails_def reply_def student_exists_def allocations_of_def
      room_by_id_def first_row_def insert_allocation_def increment_occupancy_def date_now_def
      DAY_MS_def Let_def)

lemma zero_fee_requests_result: "run zero_fee_requests empty_db = zero_fee_db"
  by (simp add: zero_fee_requests_def empty_db_def zero_fee_db_def unpaid_db_def demo_body_def
      demo_room_def demo_allocation_def
      rooms_add_def validateRoomPayload_def validate_room_number_def validate_capacity_def
      validate_monthly_fee_def validate_floor_level_def negative_number_def
      ROOM_NUMBER_MAX_LENGTH_def MAX_ROOM_CAPACITY_def MAX_MONTHLY_FEE_def
      add_student_def allocate_def fails_def reply_def student_exists_def allocations_of_def
      room_by_id_def first_row_def insert_allocation_def increment_occupancy_def date_now_def
      DAY_MS_def Let_def)

lemma first_payment_result:
  "snd (payments_add None (20000 * DAY_MS) (Some 1) (Some (Fin 5000)) unpaid_db) = paid_db"
  by (simp add: payments_add_def buildFeeSnapshot_def fails_def student_exists_def
      allocation_rows_def latest_payment_date_def first_row_def insert_payment_def date_now_def
      parseDbDate_def unpaid_db_def paid_db_def demo_room_def demo_allocation_def
      MAX_MONTHLY_FEE_def DAY_MS_def Let_def split: sum.splits)

lemma paid_requests_result: "run paid_requests empty_db = paid_db"
  by (simp add: paid_requests_def run_append unpaid_requests_result first_payment_result)

lemma fee_update_result:
  assumes "0 \<le> fl f" and "fl f \<le> MAX_MONTHLY_FEE"
  shows "snd (rooms_put None (Some 1) (fee_update f) paid_db) =
    paid_db\<lparr>rooms := [demo_room\<lparr>monthly_fee := fl f\<rparr>]\<rparr>"
  using assms
  by (simp add: rooms_put_def proceedUpdate_def validateRoomPayload_def validate_room_number_def
      validate_capacity_def validate_monthly_fee_def validate_floor_level_def no_updates_def
      apply_room_update_def fee_update_def fails_def room_by_id_def first_row_def
      paid_db_def unpaid_db_def demo_room_def not_less Let_def)

lemma zero_fee_paid_requests_result: "run zero_fee_paid_requests empty_db = zero_fee_paid_db"
  by (simp add: zero_fee_paid_requests_def run_append paid_requests_result fee_update_result
      zero_fee_paid_db_def MAX_MONTHLY_FEE_def)

lemma capped_requests_result: "run capped_requests empty_db = capped_db"
  by (simp add: capped_requests_def run_append paid_requests_result fee_update_result
      capped_db_def MAX_MONTHLY_FEE_def)

section \<open>Properties of the billing derivation\<close>

lemma DAY_MS_pos: "0 < DAY_MS"
  by (simp add: DAY_MS_def)

lemma whole_days_between:
  "(startOfTodayUTC now - addDays (lp * DAY_MS) 30) div DAY_MS = now div DAY_MS - (lp + 30)"
proof -
  have "startOfTodayUTC now - addDays (lp * DAY_MS) 30 = (now div DAY_MS - (lp + 30)) * DAY_MS"
    by (simp add: addDays_def startOfTodayUTC_def algebra_simps)
  then show ?thesis
    using DAY_MS_pos by simp
qed

lemma due_date_format: "addDays (lp * DAY_MS) 30 div DAY_MS = lp + 30"
proof -
  have "addDays (lp * DAY_MS) 30 = (lp + 30) * DAY_MS"
    by (simp add: addDays_def algebra_simps)
  then show ?thesis
    using DAY_MS_pos by simp
qed

lemma today_format: "startOfTodayUTC now div DAY_MS = now div DAY_MS"
  using DAY_MS_pos by (simp add: startOfTodayUTC_def)

lemma buildFeeSnapshot_with_payment:
  assumes "first_row (allocation_rows s sid) = Some (a, r)"
    and "0 < fl (monthly_fee r)"
    and "latest_payment_date s sid = Some lp"
  shows "buildFeeSnapshot False False s sid now =
    Inr \<lparr>snap_student_id = sid,
         snap_monthly_fee = fl (monthly_fee r),
         snap_room_type = room_type r,
         snap_allocation_date = allocation_date a,
         last_payment_date = Some lp,
         due_date = Some (lp + 30),
         days_late = max 0 (now div DAY_MS - (lp + 30)),
         fine = max 0 (now div DAY_MS - (lp + 30)) * 100,
         total_payable =
           js_add (fl (monthly_fee r)) (of_int (max 0 (now div DAY_MS - (lp + 30)) * 100)),
         fee_status = resolveFeeStatus (Some (now div DAY_MS - (lp + 30))) True,
         today = Some (now div DAY_MS)\<rparr>"
proof -
  have late: "(if 0 < n then n else 0) = max 0 n"
    "(if 0 < max 0 n then max 0 n * 100 else 0) = max 0 n * 100" for n :: int
    by (simp_all add: max_def)
  show ?thesis
    using assms
    by (simp add: buildFeeSnapshot_def Let_def parseDbDate_def formatDateISO_def
        due_date_format today_format whole_days_between late)
qed

lemma buildFeeSnapshot_no_payment:
  assumes "first_row (allocation_rows s sid) = Some (a, r)"
    and "0 < fl (monthly_fee r)"
    and "latest_payment_date s sid = None"
  shows "buildFeeSnapshot False False s sid now =
    Inr \<lparr>snap_student_id = sid,
         snap_monthly_fee = fl (monthly_fee r),
         snap_room_type = room_type r,
         snap_allocation_date = allocation_date a,
         last_payment_date = None,
         due_date = None,
         days_late = 0,
         fine = 0,
         total_payable = fl (monthly_fee r),
         fee_status = PaymentPending,
         today = Some (now div DAY_MS)\<rparr>"
  using assms
  by (simp add: buildFeeSnapshot_def Let_def parseDbDate_def formatDateISO_def
      today_format resolveFeeStatus_def)

lemma buildFeeSnapshot_unconfigured:
  assumes "first_row (allocation_rows s sid) = Some (a, r)"
    and "fl (monthly_fee r) \<le> 0"
  shows "buildFeeSnapshot False False s sid now =
    Inl (500, ''Room fee is not configured for this allocation'')"
  using assms by (simp add: buildFeeSnapshot_def)

lemma buildFeeSnapshot_Inr_D:
  assumes "buildFeeSnapshot allocErr paymentErr s sid now = Inr snap"
  shows "\<not> allocErr \<and> \<not> paymentErr \<and>
    (\<exists>a r. first_row (allocation_rows s sid) = Some (a, r) \<and> 0 < fl (monthly_fee r)) \<and>
    buildFeeSnapshot False False s sid now = Inr snap"
  using assms
  by (auto simp: buildFeeSnapshot_def Let_def split: if_splits option.splits prod.splits)

lemma demo_rows:
  "first_row (allocation_rows unpaid_db 1) = Some (demo_allocation, demo_room)"
  "first_row (allocation_rows paid_db 1) = Some (demo_allocation, demo_room)"
  "latest_payment_date unpaid_db 1 = None"
  "latest_payment_date paid_db 1 = Some 20000"
  "monthly_fee demo_room = 5000"
  by (simp_all add: first_row_def allocation_rows_def latest_payment_date_def unpaid_db_def
      paid_db_def demo_room_def demo_allocation_def)

text \<open>
  Claim C1, as amended. With a last payment on day \<open>D\<close> and a monthly fee of 5000 the
  snapshot is computed and has status Paid at any instant of day \<open>D + 29\<close>, status Late
  with fine 100 on day \<open>D + 31\<close>, status Late with fine 500 on day \<open>D + 35\<close> (five days
  late is still Late; Defaulter starts with the sixth day), and status CriticalDefaulter
  with fine 3100 on day \<open>D + 61\<close>.
\<close>

theorem billing_staircase:
  assumes "first_row (allocation_rows s sid) = Some (a, r)"
    and "monthly_fee r = 5000"
    and "latest_payment_date s sid = Some D"
  shows "(\<forall>now. now div DAY_MS = D + 29 \<longrightarrow>
            (\<exists>snap. buildFeeSnapshot False False s sid now = Inr snap \<and> fee_status snap = Paid)) \<and>
         (\<forall>now. now div DAY_MS = D + 31 \<longrightarrow>
            (\<exists>snap. buildFeeSnapshot False False s sid now = Inr snap \<and> fee_status snap = Late \<and>
               fine snap = 100)) \<and>
         (\<forall>now. now div DAY_MS = D + 35 \<longrightarrow>
            (\<exists>snap. buildFeeSnapshot False False s sid now = Inr snap \<and> fee_status snap = Late \<and>
               fine snap = 500)) \<and>
         (\<forall>now. now div DAY_MS = D + 61 \<longrightarrow>
            (\<exists>snap. buildFeeSnapshot False False s sid now = Inr snap \<and>
               fee_status snap = CriticalDefaulter \<and> fine snap = 3100))"
proof -
  have fee: "0 < fl (monthly_fee r)"
    using assms(2) by simp
  note snap = buildFeeSnapshot_with_payment [OF assms(1) fee assms(3)]
  show ?thesis
    by (simp add: snap resolveFeeStatus_def)
qed

theorem billing_staircase_witness:
  "(\<exists>snap. buildFeeSnapshot False False paid_db 1 (20029 * DAY_MS) = Inr snap \<and>
      fee_status snap = Paid) \<and>
   (\<exists>snap. buildFeeSnapshot False False paid_db 1 (20031 * DAY_MS + 1) = Inr snap \<and>
      fee_status snap = Late \<and> fine snap = 100) \<and>
   (\<exists>snap. buildFeeSnapshot False False paid_db 1 (20035 * DAY_MS + 2) = Inr snap \<and>
      fee_status snap = Late \<and> fine snap = 500) \<and>
   (\<exists>snap. buildFeeSnapshot False False paid_db 1 (20061 * DAY_MS + 3) = Inr snap \<and>
      fee_status snap = CriticalDefaulter \<and> fine snap = 3100)"
proof -
  note st = billing_staircase [OF demo_rows(2) demo_rows(5) demo_rows(4)]
  have d: "(20029 * DAY_MS) div DAY_MS = 20000 + 29"
    "(20031 * DAY_MS + 1) div DAY_MS = 20000 + 31"
    "(20035 * DAY_MS + 2) div DAY_MS = 20000 + 35"
    "(20061 * DAY_MS + 3) div DAY_MS = 20000 + 61"
    by (simp_all add: DAY_MS_def)
  from st d show ?thesis
    by blast
qed

text \<open>
  Claim C1 as stated fails on day \<open>D + 35\<close>: for \<open>D = 20000\<close> and fee 5000 the status
  is Late, not Defaulter.
\<close>

theorem day_35_is_late_counterexample:
  "\<exists>snap. buildFeeSnapshot False False paid_db 1 (20035 * DAY_MS) = Inr snap \<and>
     snap_monthly_fee snap = 5000 \<and> last_payment_date snap = Some 20000 \<and>
     today snap = Some (20000 + 35) \<and> fine snap = 500 \<and>
     fee_status snap = Late \<and> fee_status snap \<noteq> Defaulter"
  by (simp add: buildFeeSnapshot_with_payment [OF demo_rows(2) _ demo_rows(4)] demo_rows(5)
      resolveFeeStatus_def DAY_MS_def)

lemma zero_fee_rows:
  "first_row (allocation_rows zero_fee_db 1) = Some (demo_allocation, demo_room\<lparr>monthly_fee := 0\<rparr>)"
  "first_row (allocation_rows zero_fee_paid_db 1) =
     Some (demo_allocation, demo_room\<lparr>monthly_fee := 0\<rparr>)"
  "latest_payment_date zero_fee_db 1 = None"
  "latest_payment_date zero_fee_paid_db 1 = Some 20000"
  by (simp_all add: first_row_def allocation_rows_def latest_payment_date_def unpaid_db_def
      paid_db_def zero_fee_db_def zero_fee_paid_db_def demo_room_def demo_allocation_def)

text \<open>
  Claim C2, as amended. For a student whose allocation row is \<open>(a, r)\<close> and whose latest
  payment is dated \<open>lp\<close>: when the room's fee is positive and no storage call fails, a
  snapshot is computed; when the fee is not positive the answer is the error 500 ``Room
  fee is not configured for this allocation''; and every computed snapshot has due date
  \<open>lp + 30\<close>, days late \<open>max 0 (today - due date)\<close> in whole days, fine 100 per day late,
  total payable the binary64 sum of the fee and the fine (their exact sum when the fee is
  a whole number and the sum is below \<open>2 ^ 53\<close>), and status Paid for 0 days late, Late
  for 1 to 5, Defaulter for 6 to 30, CriticalDefaulter beyond 30.
\<close>

theorem snapshot_after_payment:
  assumes "first_row (allocation_rows s sid) = Some (a, r)"
    and "latest_payment_date s sid = Some lp"
  shows "(0 < fl (monthly_fee r) \<longrightarrow> (\<exists>snap. buildFeeSnapshot False False s sid now = Inr snap)) \<and>
    (fl (monthly_fee r) \<le> 0 \<longrightarrow>
       buildFeeSnapshot False False s sid now =
         Inl (500, ''Room fee is not configured for this allocation'')) \<and>
    (\<forall>snap. buildFeeSnapshot allocErr paymentErr s sid now = Inr snap \<longrightarrow>
       last_payment_date snap = Some lp \<and>
       today snap = Some (now div DAY_MS) \<and>
       due_date snap = Some (lp + 30) \<and>
       days_late snap = max 0 (now div DAY_MS - (lp + 30)) \<and>
       fine snap = days_late snap * 100 \<and>
       snap_monthly_fee snap = fl (monthly_fee r) \<and>
       total_payable snap = js_add (snap_monthly_fee snap) (of_int (fine snap)) \<and>
       (\<forall>n. monthly_fee r = of_int n \<and> n + fine snap < 2 ^ 53 \<longrightarrow>
          total_payable snap = of_int (n + fine snap)) \<and>
       (days_late snap = 0 \<longrightarrow> fee_status snap = Paid) \<and>
       (1 \<le> days_late snap \<and> days_late snap \<le> 5 \<longrightarrow> fee_status snap = Late) \<and>
       (6 \<le> days_late snap \<and> days_late snap \<le> 30 \<longrightarrow> fee_status snap = Defaulter) \<and>
       (30 < days_late snap \<longrightarrow> fee_status snap = CriticalDefaulter))"
proof (intro conjI allI impI)
  assume "0 < fl (monthly_fee r)"
  then show "\<exists>snap. buildFeeSnapshot False False s sid now = Inr snap"
    by (simp add: buildFeeSnapshot_with_payment [OF assms(1) _ assms(2)])
next
  assume "fl (monthly_fee r) \<le> 0"
  then show "buildFeeSnapshot False False s sid now =
      Inl (500, ''Room fee is not configured for this allocation'')"
    by (rule buildFeeSnapshot_unconfigured [OF assms(1)])
next
  fix snap
  assume built: "buildFeeSnapshot allocErr paymentErr s sid now = Inr snap"
  from buildFeeSnapshot_Inr_D [OF built] assms(1)
  have fee: "0 < fl (monthly_fee r)" and plain: "buildFeeSnapshot False False s sid now = Inr snap"
    by auto
  define late where "late = max 0 (now div DAY_MS - (lp + 30))"
  from plain have snap: "snap = \<lparr>snap_student_id = sid,
         snap_monthly_fee = fl (monthly_fee r),
         snap_room_type = room_type r,
         snap_allocation_date = allocation_date a,
         last_payment_date = Some lp,
         due_date = Some (lp + 30),
         days_late = late,
         fine = late * 100,
         total_payable = js_add (fl (monthly_fee r)) (of_int (late * 100)),
         fee_status = resolveFeeStatus (Some (now div DAY_MS - (lp + 30))) True,
         today = Some (now div DAY_MS)\<rparr>"
    by (simp add: buildFeeSnapshot_with_payment [OF assms(1) fee assms(2)] late_def)
  show "last_payment_date snap = Some lp" "today snap = Some (now div DAY_MS)"
    "due_date snap = Some (lp + 30)"
    "days_late snap = max 0 (now div DAY_MS - (lp + 30))"
    "fine snap = days_late snap * 100"
    "snap_monthly_fee snap = fl (monthly_fee r)"
    "total_payable snap = js_add (snap_monthly_fee snap) (of_int (fine snap))"
    by (simp_all add: snap late_def)
  show "total_payable snap = of_int (n + fine snap)"
    if whole: "monthly_fee r = of_int n \<and> n + fine snap < 2 ^ 53" for n
  proof -
    have late: "0 \<le> late"
      by (simp add: late_def)
    have small: "\<bar>n\<bar> < 2 ^ 53 \<Longrightarrow> 0 < n"
      using fee whole by (simp add: fl_of_int)
    have "\<not> 2 ^ 53 \<le> \<bar>n\<bar>"
    proof
      assume big: "2 ^ 53 \<le> \<bar>n\<bar>"
      show False
      proof (cases "0 \<le> n")
        case True
        with big whole late show False
          by (simp add: snap)
      next
        case False
        then have "monthly_fee r \<le> 0"
          using whole by simp
        from fl_nonpos [OF this] fee show False
          by simp
      qed
    qed
    then have n: "\<bar>n\<bar> < 2 ^ 53"
      by simp
    with small have "0 < n"
      by simp
    with whole late have "\<bar>n + late * 100\<bar> < 2 ^ 53"
      by (simp add: snap)
    from js_add_whole [OF n this] whole show ?thesis
      by (simp add: snap)
  qed
  show "fee_status snap = Paid" if "days_late snap = 0"
    using that by (simp add: snap late_def resolveFeeStatus_def max_def split: if_splits)
  show "fee_status snap = Late" if "1 \<le> days_late snap \<and> days_late snap \<le> 5"
    using that by (simp add: snap late_def resolveFeeStatus_def max_def split: if_splits)
  show "fee_status snap = Defaulter" if "6 \<le> days_late snap \<and> days_late snap \<le> 30"
    using that by (simp add: snap late_def resolveFeeStatus_def max_def split: if_splits)
  show "fee_status snap = CriticalDefaulter" if "30 < days_late snap"
    using that by (simp add: snap late_def resolveFeeStatus_def max_def split: if_splits)
qed

theorem snapshot_after_payment_witness:
  "(\<exists>snap. buildFeeSnapshot False False paid_db 1 (20042 * DAY_MS + 7) = Inr snap \<and>
      due_date snap = Some 20030 \<and> days_late snap = 12 \<and> fine snap = 1200 \<and>
      total_payable snap = 6200 \<and> fee_status snap = Defaulter) \<and>
   buildFeeSnapshot False False zero_fee_paid_db 1 (20042 * DAY_MS + 7) =
     Inl (500, ''Room fee is not configured for this allocation'')"
proof -
  have day: "(20042 * DAY_MS + 7) div DAY_MS = 20042"
    by (simp add: DAY_MS_def)
  have whole: "monthly_fee demo_room = of_int 5000"
    by (simp add: demo_rows(5))
  from snapshot_after_payment [OF demo_rows(2) demo_rows(4), of "20042 * DAY_MS + 7" False False]
  have "\<exists>snap. buildFeeSnapshot False False paid_db 1 (20042 * DAY_MS + 7) = Inr snap \<and>
      due_date snap = Some 20030 \<and> days_late snap = 12 \<and> fine snap = 1200 \<and>
      total_payable snap = 6200 \<and> fee_status snap = Defaulter"
    using whole by (auto simp: demo_rows(5) day)
  moreover
  from snapshot_after_payment [OF zero_fee_rows(2) zero_fee_rows(4), of "20042 * DAY_MS + 7" False False]
  have "buildFeeSnapshot False False zero_fee_paid_db 1 (20042 * DAY_MS + 7) =
      Inl (500, ''Room fee is not configured for this allocation'')"
    by simp
  ultimately show ?thesis ..
qed

text \<open>
  Claim C2 as stated fails for a room whose fee is 0, a fee \<open>validateRoomPayload\<close>
  admits: after the requests \<open>zero_fee_paid_requests\<close> from the empty database, student 1
  has an allocation and a payment, and no snapshot is computed.
\<close>

theorem snapshot_after_payment_counterexample:
  "run zero_fee_paid_requests empty_db = zero_fee_paid_db \<and>
   first_row (allocation_rows zero_fee_paid_db 1) =
     Some (demo_allocation, demo_room\<lparr>monthly_fee := 0\<rparr>) \<and>
   latest_payment_date zero_fee_paid_db 1 = Some 20000 \<and>
   buildFeeSnapshot False False zero_fee_paid_db 1 (20042 * DAY_MS) =
     Inl (500, ''Room fee is not configured for this allocation'')"
  by (simp add: zero_fee_paid_requests_result zero_fee_rows
      buildFeeSnapshot_unconfigured [OF zero_fee_rows(2)])

text \<open>
  The sum is a binary64 sum: for a fee written 9.04 and a fine of 100 it is
  109.03999999999999, not 109.04.
\<close>

lemma rounded_sum_example:
  "js_add (fl (226 / 25)) 100 = 3836503932566241 / 35184372088832"
  "js_add (fl (226 / 25)) 100 < 226 / 25 + 100"
  by code_simp+

text \<open>
  Claim C7, as amended. For a student with an allocation row \<open>(a, r)\<close> and no payment
  row: when the room's fee is positive and no storage call fails, a snapshot is computed;
  when the fee is not positive the answer is the error 500 ``Room fee is not configured
  for this allocation''; and every computed snapshot has no due date, status
  PaymentPending, fine 0 and total payable equal to the monthly fee.
\<close>

theorem snapshot_before_first_payment:
  assumes "first_row (allocation_rows s sid) = Some (a, r)"
    and "latest_payment_date s sid = None"
  shows "(0 < fl (monthly_fee r) \<longrightarrow> (\<exists>snap. buildFeeSnapshot False False s sid now = Inr snap)) \<and>
    (fl (monthly_fee r) \<le> 0 \<longrightarrow>
       buildFeeSnapshot False False s sid now =
         Inl (500, ''Room fee is not configured for this allocation'')) \<and>
    (\<forall>snap. buildFeeSnapshot allocErr paymentErr s sid now = Inr snap \<longrightarrow>
       due_date snap = None \<and> fee_status snap = PaymentPending \<and> fine snap = 0 \<and>
       total_payable snap = snap_monthly_fee snap \<and> snap_monthly_fee snap = fl (monthly_fee r))"
proof (intro conjI allI impI)
  assume "0 < fl (monthly_fee r)"
  then show "\<exists>snap. buildFeeSnapshot False False s sid now = Inr snap"
    by (simp add: buildFeeSnapshot_no_payment [OF assms(1) _ assms(2)])
next
  assume "fl (monthly_fee r) \<le> 0"
  then show "buildFeeSnapshot False False s sid now =
      Inl (500, ''Room fee is not configured for this allocation'')"
    by (rule buildFeeSnapshot_unconfigured [OF assms(1)])
next
  fix snap
  assume built: "buildFeeSnapshot allocErr paymentErr s sid now = Inr snap"
  from buildFeeSnapshot_Inr_D [OF built] assms(1)
  have fee: "0 < fl (monthly_fee r)" and plain: "buildFeeSnapshot False False s sid now = Inr snap"
    by auto
  from plain
  show "due_date snap = None" "fee_status snap = PaymentPending" "fine snap = 0"
    "total_payable snap = snap_monthly_fee snap" "snap_monthly_fee snap = fl (monthly_fee r)"
    by (auto simp: buildFeeSnapshot_no_payment [OF assms(1) fee assms(2)])
qed

theorem snapshot_before_first_payment_witness:
  "(\<exists>snap. buildFeeSnapshot False False unpaid_db 1 (20042 * DAY_MS) = Inr snap \<and>
      due_date snap = None \<and> fee_status snap = PaymentPending \<and> fine snap = 0 \<and>
      total_payable snap = 5000) \<and>
   buildFeeSnapshot False False zero_fee_db 1 (20042 * DAY_MS) =
     Inl (500, ''Room fee is not configured for this allocation'')"
proof -
  from snapshot_before_first_payment [OF demo_rows(1) demo_rows(3), of "20042 * DAY_MS" False False]
  have "\<exists>snap. buildFeeSnapshot False False unpaid_db 1 (20042 * DAY_MS) = Inr snap \<and>
      due_date snap = None \<and> fee_status snap = PaymentPending \<and> fine snap = 0 \<and>
      total_payable snap = 5000"
    by (auto simp: demo_rows(5))
  moreover
  from snapshot_before_first_payment [OF zero_fee_rows(1) zero_fee_rows(3), of "20042 * DAY_MS" False False]
  have "buildFeeSnapshot False False zero_fee_db 1 (20042 * DAY_MS) =
      Inl (500, ''Room fee is not configured for this allocation'')"
    by simp
  ultimately show ?thesis ..
qed

text \<open>
  Claim C7 as stated fails for a room whose fee is 0: after the requests
  \<open>zero_fee_requests\<close> from the empty database, student 1 has an allocation and no
  payment, and the answer is the error 500, not a snapshot with status PaymentPending.
\<close>

theorem snapshot_before_first_payment_counterexample:
  "run zero_fee_requests empty_db = zero_fee_db \<and>
   first_row (allocation_rows zero_fee_db 1) =
     Some (demo_allocation, demo_room\<lparr>monthly_fee := 0\<rparr>) \<and>
   latest_payment_date zero_fee_db 1 = None \<and>
   buildFeeSnapshot False False zero_fee_db 1 (20042 * DAY_MS) =
     Inl (500, ''Room fee is not configured for this allocation'')"
  by (simp add: zero_fee_requests_result zero_fee_rows
      buildFeeSnapshot_unconfigured [OF zero_fee_rows(1)])

section \<open>Properties of allocation and transfer\<close>

lemma demo_lookups:
  "student_exists unpaid_db 1" "student_exists unpaid_db 2"
  "student_exists paid_db 1" "student_exists two_room_db 1"
  "student_exists full_room_db 2"
  "allocations_of paid_db 1 = [demo_allocation]"
  "allocations_of two_room_db 1 = [demo_allocation]"
  "allocations_of full_room_db 2 = []"
  "room_by_id two_room_db 2 = Some spare_room"
  "room_by_id full_room_db 1 = Some (demo_room\<lparr>capacity := 1\<rparr>)"
  "\<not> student_exists unpaid_db 7"
  "allocations_of unpaid_db 2 = []"
  "room_by_id unpaid_db 9 = None"
  by (simp_all add: student_exists_def allocations_of_def room_by_id_def first_row_def
      unpaid_db_def paid_db_def two_room_db_def full_room_db_def demo_room_def spare_room_def
      demo_allocation_def)

text \<open>
  Claim C9, as amended. Without a storage failure, \<open>allocate\<close> answers 404 for a student
  that does not exist and for a room that does not exist, 400 (not 409) with the message
  ``Student is already allocated to a room'' for a student who has an allocation, and 400
  with ``Room is full'' for a room whose occupancy has reached its capacity; in each case
  the database, and so the room's occupancy, is unchanged.
\<close>

theorem allocate_errors:
  assumes "studentId \<noteq> 0" and "roomId \<noteq> 0"
  shows "(\<not> student_exists s studentId \<longrightarrow>
            allocate None now (Some studentId) (Some roomId) s =
              (reply 404 (Message ''Student does not exist''), s)) \<and>
         (student_exists s studentId \<and> allocations_of s studentId \<noteq> [] \<longrightarrow>
            allocate None now (Some studentId) (Some roomId) s =
              (reply 400 (Message ''Student is already allocated to a room''), s)) \<and>
         (student_exists s studentId \<and> allocations_of s studentId = [] \<and>
          room_by_id s roomId = None \<longrightarrow>
            allocate None now (Some studentId) (Some roomId) s =
              (reply 404 (RoomMissing roomId), s)) \<and>
         (\<forall>room. student_exists s studentId \<and> allocations_of s studentId = [] \<and>
            room_by_id s roomId = Some room \<and> capacity room \<le> of_int (current_occupancy room) \<longrightarrow>
            allocate None now (Some studentId) (Some roomId) s =
              (reply 400 (Message ''Room is full''), s))"
  using assms by (simp add: allocate_def fails_def)

theorem allocate_errors_witness:
  "allocate None 0 (Some 7) (Some 1) unpaid_db =
     (reply 404 (Message ''Student does not exist''), unpaid_db) \<and>
   allocate None 0 (Some 1) (Some 1) paid_db =
     (reply 400 (Message ''Student is already allocated to a room''), paid_db) \<and>
   allocate None 0 (Some 2) (Some 9) unpaid_db = (reply 404 (RoomMissing 9), unpaid_db) \<and>
   allocate None 0 (Some 2) (Some 1) full_room_db =
     (reply 400 (Message ''Room is full''), full_room_db)"
proof -
  have nz: "(7::int) \<noteq> 0" "(1::int) \<noteq> 0" "(2::int) \<noteq> 0" "(9::int) \<noteq> 0"
    by simp_all
  have full: "capacity (demo_room\<lparr>capacity := 1\<rparr>)
      \<le> of_int (current_occupancy (demo_room\<lparr>capacity := 1\<rparr>))"
    by (simp add: demo_room_def)
  from allocate_errors [OF nz(1) nz(2), of unpaid_db 0]
    allocate_errors [OF nz(2) nz(2), of paid_db 0]
    allocate_errors [OF nz(3) nz(4), of unpaid_db 0]
    allocate_errors [OF nz(3) nz(2), of full_room_db 0]
    demo_lookups full
  show ?thesis
    by simp
qed

text \<open>
  Claim C9 as stated fails for the already-allocated student: the response carries status
  400, not 409.
\<close>

theorem allocate_conflict_counterexample:
  "student_exists paid_db 1 \<and> allocations_of paid_db 1 \<noteq> [] \<and>
   status (fst (allocate None 0 (Some 1) (Some 1) paid_db)) = 400 \<and>
   status (fst (allocate None 0 (Some 1) (Some 1) paid_db)) \<noteq> 409"
  by (simp add: allocate_def fails_def demo_lookups reply_def)

text \<open>
  Claim C4. Whatever the request, the database and the storage call that fails, a
  transfer that does not answer 200 leaves the database exactly as it was: every room's
  occupancy and every allocation row (room and date) are unchanged. A failure injected
  at any of the seven storage calls, in particular at call 6, after the old bed has been
  released and before the new one is reserved, makes the transfer fail.
\<close>

theorem transfer_all_or_nothing:
  "(status (fst (transfer fault now raw_student_id raw_new_room_id s)) \<noteq> 200 \<longrightarrow>
      snd (transfer fault now raw_student_id raw_new_room_id s) = s) \<and>
   ((\<exists>k. 1 \<le> k \<and> k \<le> 7 \<and> fails fault k) \<longrightarrow>
      status (fst (transfer fault now raw_student_id raw_new_room_id s)) \<noteq> 200)"
proof (intro conjI impI)
  assume "status (fst (transfer fault now raw_student_id raw_new_room_id s)) \<noteq> 200"
  then show "snd (transfer fault now raw_student_id raw_new_room_id s) = s"
    by (auto simp: transfer_def rollback_def reply_def Let_def
        split: option.splits if_splits)
next
  assume "\<exists>k. 1 \<le> k \<and> k \<le> 7 \<and> fails fault k"
  then obtain k where k: "1 \<le> k" "k \<le> 7" "fault = Some k"
    by (auto simp: fails_def)
  then have "k = 1 \<or> k = 2 \<or> k = 3 \<or> k = 4 \<or> k = 5 \<or> k = 6 \<or> k = 7"
    by arith
  with k(3) show "status (fst (transfer fault now raw_student_id raw_new_room_id s)) \<noteq> 200"
    by (auto simp: transfer_def rollback_def reply_def Let_def fails_def
        split: option.splits)
qed

theorem transfer_all_or_nothing_witness:
  "status (fst (transfer (Some 6) 0 (Some 1) (Some 2) two_room_db)) = 500 \<and>
   snd (transfer (Some 6) 0 (Some 1) (Some 2) two_room_db) = two_room_db \<and>
   status (fst (transfer None 0 (Some 1) (Some 2) two_room_db)) = 200"
proof -
  have failed: "status (fst (transfer (Some 6) 0 (Some 1) (Some 2) two_room_db)) = 500"
    by (simp add: transfer_def fails_def demo_lookups first_row_def rollback_def reply_def
        Let_def spare_room_def demo_allocation_def)
  have passed: "status (fst (transfer None 0 (Some 1) (Some 2) two_room_db)) = 200"
    by (simp add: transfer_def fails_def demo_lookups first_row_def rollback_def reply_def
        Let_def spare_room_def demo_allocation_def)
  from transfer_all_or_nothing [of "Some 6" 0 "Some 1" "Some 2" two_room_db] failed passed
  show ?thesis
    by simp
qed

section \<open>Properties of payment acceptance\<close>

lemma round2_cap: "round2 MAX_MONTHLY_FEE = MAX_MONTHLY_FEE"
  by (simp add: MAX_MONTHLY_FEE_def)

lemma round2_just_above_cap: "MAX_MONTHLY_FEE < round2 (MAX_MONTHLY_FEE + 1 / 200)"
  by code_simp

lemma round2_above_cap:
  assumes "MAX_MONTHLY_FEE + 1 / 200 \<le> x"
  shows "MAX_MONTHLY_FEE < round2 x"
  using round2_just_above_cap round2_mono [OF assms] by simp

lemma round2_within_cap: "x \<le> MAX_MONTHLY_FEE \<Longrightarrow> round2 x \<le> MAX_MONTHLY_FEE"
  using round2_mono [of x MAX_MONTHLY_FEE] by (simp add: round2_cap)

lemma allocation_rows_insert_payment [simp]:
  "allocation_rows (insert_payment s studentId amt day) i = allocation_rows s i"
  by (simp add: allocation_rows_def insert_payment_def)

lemma student_exists_insert_payment [simp]:
  "student_exists (insert_payment s studentId amt day) i = student_exists s i"
  by (simp add: student_exists_def insert_payment_def)

lemma fold_max_bounded: "d0 \<le> (d::int) \<Longrightarrow> \<forall>x \<in> set ds. x \<le> d \<Longrightarrow> fold max ds d0 \<le> d"
  by (induction ds arbitrary: d0) simp_all

lemma fold_max_last: "d0 \<le> (d::int) \<Longrightarrow> \<forall>x \<in> set ds. x \<le> d \<Longrightarrow> fold max (ds @ [d]) d0 = d"
  using fold_max_bounded [of d0 d ds] by simp

lemma latest_payment_date_insert:
  assumes "\<forall>p \<in> set (payments s). pay_student_id p = studentId \<longrightarrow> pay_date p \<le> day"
  shows "latest_payment_date (insert_payment s studentId amt day) studentId = Some day"
proof (cases "map pay_date (filter (\<lambda>p. pay_student_id p = studentId) (payments s))")
  case Nil
  then show ?thesis
    by (simp add: latest_payment_date_def insert_payment_def)
next
  case (Cons d0 ds)
  have "\<forall>x \<in> set (d0 # ds). x \<le> day"
    unfolding Cons [symmetric] using assms by auto
  then have "fold max (ds @ [day]) d0 = day"
    by (intro fold_max_last) simp_all
  with Cons show ?thesis
    by (simp add: latest_payment_date_def insert_payment_def)
qed

lemma payments_add_checked:
  assumes "studentId \<noteq> 0" and "student_exists s studentId"
    and "0 < fl amt" and "fl amt \<le> MAX_MONTHLY_FEE"
    and "buildFeeSnapshot False False s studentId now = Inr snap"
  shows "payments_add None now (Some studentId) (Some (Fin amt)) s =
    (if round2 (fl amt) \<noteq> round2 (total_payable snap)
     then (reply 400 (ExpectedPayment (round2 (total_payable snap))
             (if last_payment_date snap = None then FirstPaymentMustMatch
              else if days_late snap > 0 then IncludesLateFee (fine snap) (days_late snap)
              else MustMatchMonthlyFee)), s)
     else
       (case buildFeeSnapshot False False
               (insert_payment s studentId (round2 (total_payable snap)) (date_now now))
               studentId now of
          Inl e \<Rightarrow> (reply 200 (PaymentRecorded (payments_seq s + 1) None),
                    insert_payment s studentId (round2 (total_payable snap)) (date_now now))
        | Inr updated \<Rightarrow> (reply 200 (PaymentRecorded (payments_seq s + 1) (Some updated)),
                    insert_payment s studentId (round2 (total_payable snap)) (date_now now))))"
  using assms
  by (simp add: payments_add_def fails_def Let_def insert_payment_def split: sum.splits)


lemma buildFeeSnapshot_error_status:
  "buildFeeSnapshot allocErr paymentErr s studentId now = Inl (st, msg) \<Longrightarrow> st = 400 \<or> st = 500"
  by (auto simp: buildFeeSnapshot_def Let_def split: if_splits option.splits prod.splits)

lemma payments_add_accepted_D:
  assumes "status (fst (payments_add fault now raw_student_id raw_amount s)) = 200"
  shows "\<exists>studentId amt snap. raw_student_id = Some studentId \<and> raw_amount = Some (Fin amt) \<and>
    studentId \<noteq> 0 \<and> 0 < fl amt \<and> fl amt \<le> MAX_MONTHLY_FEE \<and> student_exists s studentId \<and>
    buildFeeSnapshot False False s studentId now = Inr snap \<and>
    round2 (fl amt) = round2 (total_payable snap)"
proof -
  from assms obtain studentId amt where args: "raw_student_id = Some studentId"
      "raw_amount = Some (Fin amt)" "studentId \<noteq> 0"
    by (auto simp: payments_add_def reply_def split: option.splits jsnum.splits if_splits)
  from assms args have range: "0 < fl amt" "fl amt \<le> MAX_MONTHLY_FEE" "student_exists s studentId"
    by (auto simp: payments_add_def reply_def Let_def split: if_splits)
  from assms args range obtain snap where
    snap: "buildFeeSnapshot (fails fault 2) (fails fault 3) s studentId now = Inr snap"
    by (auto simp: payments_add_def reply_def Let_def split: if_splits sum.splits
        dest: buildFeeSnapshot_error_status)
  from assms args range snap have "round2 (fl amt) = round2 (total_payable snap)"
    by (auto simp: payments_add_def reply_def Let_def split: if_splits)
  with args range buildFeeSnapshot_Inr_D [OF snap] show ?thesis
    by auto
qed

lemma payments_add_unchanged:
  "status (fst (payments_add fault now raw_student_id raw_amount s)) \<noteq> 200 \<Longrightarrow>
   snd (payments_add fault now raw_student_id raw_amount s) = s"
  by (auto simp: payments_add_def reply_def Let_def
      split: option.splits jsnum.splits if_splits sum.splits prod.splits)

lemma payments_add_snd:
  "snd (payments_add fault now raw_student_id raw_amount s) = s \<or>
   (\<exists>studentId expected. snd (payments_add fault now raw_student_id raw_amount s) =
      insert_payment s studentId expected (date_now now))"
  by (auto simp: payments_add_def Let_def
      split: option.splits jsnum.splits sum.splits prod.splits)

lemma pricey_rows:
  "first_row (allocation_rows pricey_db 1) =
     Some (demo_allocation, demo_room\<lparr>monthly_fee := 499900001 / 1000\<rparr>)"
  "latest_payment_date pricey_db 1 = Some 20000"
  "student_exists pricey_db 1"
  by (simp_all add: first_row_def allocation_rows_def latest_payment_date_def unpaid_db_def
      paid_db_def pricey_db_def demo_room_def demo_allocation_def student_exists_def)

lemma capped_rows:
  "first_row (allocation_rows capped_db 1) =
     Some (demo_allocation, demo_room\<lparr>monthly_fee := 500000\<rparr>)"
  "latest_payment_date capped_db 1 = Some 20000"
  "student_exists capped_db 1"
  by (simp_all add: first_row_def allocation_rows_def latest_payment_date_def unpaid_db_def
      paid_db_def capped_db_def demo_room_def demo_allocation_def student_exists_def)

text \<open>
  The fee written 499900.001 is held as the binary64 value next to it; with a fine of
  100 or 200 the sums and their rounded values are these.
\<close>

lemma pricey_sums:
  "0 < fl (499900001 / 1000)"
  "MAX_MONTHLY_FEE < js_add (fl (499900001 / 1000)) 100"
  "round2 (js_add (fl (499900001 / 1000)) 100) = 500000"
  "MAX_MONTHLY_FEE + 1 / 200 \<le> js_add (fl (499900001 / 1000)) 200"
  by code_simp+



text \<open>
  The rounding is the program's: a total held as the binary64 value of 1.005 is expected
  as 1.00, since its product with 100 is 100.49999999999999, and the binary64 value of
  2.675 is expected as 2.68, since its product with 100 rounds to 267.5.
\<close>

lemma round2_is_binary64:
  "js_mul (fl (201 / 200)) 100 < 201 / 2" "round2 (fl (201 / 200)) = 1"
  "fl (107 / 40) < 107 / 40" "js_mul (fl (107 / 40)) 100 = 535 / 2"
  "round2 (fl (107 / 40)) = fl (67 / 25)"
  by code_simp+

text \<open>
  Claim C8, as amended. When the student exists, the snapshot is computed, the amount is
  positive and at most 500000 and matches the snapshot's total payable after rounding, no
  storage call fails and none of the student's recorded payments is dated after today,
  \<open>payments_add\<close> answers 200; the database afterwards is the one before with exactly one
  payment row appended (the student, the expected amount, today's date) and the payment
  sequence advanced, so rooms, allocations, students and the earlier payment rows are
  unchanged; and the snapshot returned has status Paid and due date today plus 30 days.
\<close>

theorem payment_recorded_effect:
  assumes "studentId \<noteq> 0" and "student_exists s studentId"
    and "0 < fl amt" and "fl amt \<le> MAX_MONTHLY_FEE"
    and "buildFeeSnapshot False False s studentId now = Inr snap"
    and "round2 (fl amt) = round2 (total_payable snap)"
    and "\<forall>p \<in> set (payments s). pay_student_id p = studentId \<longrightarrow> pay_date p \<le> now div DAY_MS"
  shows "\<exists>updated.
    payments_add None now (Some studentId) (Some (Fin amt)) s =
      (reply 200 (PaymentRecorded (payments_seq s + 1) (Some updated)),
       s\<lparr>payments := payments s @
            [\<lparr>payment_id = payments_seq s + 1, pay_student_id = studentId,
              amount = round2 (total_payable snap), pay_date = now div DAY_MS\<rparr>],
         payments_seq := payments_seq s + 1\<rparr>) \<and>
    fee_status updated = Paid \<and> due_date updated = Some (now div DAY_MS + 30)"
proof -
  let ?s1 = "insert_payment s studentId (round2 (total_payable snap)) (date_now now)"
  from buildFeeSnapshot_Inr_D [OF assms(5)] obtain a r where
    row: "first_row (allocation_rows s studentId) = Some (a, r)" and fee: "0 < fl (monthly_fee r)"
    by blast
  have row1: "first_row (allocation_rows ?s1 studentId) = Some (a, r)"
    using row by simp
  have latest: "latest_payment_date ?s1 studentId = Some (now div DAY_MS)"
    using latest_payment_date_insert [OF assms(7)] by (simp add: date_now_def)
  obtain updated where updated: "buildFeeSnapshot False False ?s1 studentId now = Inr updated"
      "fee_status updated = Paid" "due_date updated = Some (now div DAY_MS + 30)"
    by (simp add: buildFeeSnapshot_with_payment [OF row1 fee latest, of now] resolveFeeStatus_def)
  have "payments_add None now (Some studentId) (Some (Fin amt)) s =
      (reply 200 (PaymentRecorded (payments_seq s + 1) (Some updated)), ?s1)"
    using payments_add_checked [OF assms(1-5)] assms(6) updated(1) by simp
  with updated(2,3) show ?thesis
    by (auto simp: insert_payment_def date_now_def)
qed

theorem payment_recorded_effect_witness:
  "\<exists>updated.
    payments_add None (20031 * DAY_MS) (Some 1) (Some (Fin 5100)) paid_db =
      (reply 200 (PaymentRecorded 2 (Some updated)),
       paid_db\<lparr>payments := payments paid_db @
            [\<lparr>payment_id = 2, pay_student_id = 1, amount = 5100, pay_date = 20031\<rparr>],
         payments_seq := 2\<rparr>) \<and>
    fee_status updated = Paid \<and> due_date updated = Some 20061"
proof -
  have day: "(20031 * DAY_MS) div DAY_MS = 20031"
    by (simp add: DAY_MS_def)
  obtain snap where snap: "buildFeeSnapshot False False paid_db 1 (20031 * DAY_MS) = Inr snap"
      "total_payable snap = 5100"
    by (simp add: buildFeeSnapshot_with_payment [OF demo_rows(2) _ demo_rows(4)] demo_rows(5) day
        js_add_def)
  have dated: "\<forall>p \<in> set (payments paid_db). pay_student_id p = 1 \<longrightarrow>
      pay_date p \<le> (20031 * DAY_MS) div DAY_MS"
    by (simp add: paid_db_def day)
  have seq: "payments_seq paid_db = 1"
    by (simp add: paid_db_def)
  from payment_recorded_effect [OF _ demo_lookups(3) _ _ snap(1) _ dated, of 5100]
  show ?thesis
    by (simp add: snap(2) MAX_MONTHLY_FEE_def day seq)
qed

text \<open>
  Claim C8 as stated fails when the total payable exceeds 500000: after the requests
  \<open>capped_requests\<close> from the empty database the room's fee is 500000 and student 1 last
  paid on day 20000; on day 20031, one day late, the total payable is 500100, and the
  amount 500100, which matches it, is refused with status 400 and nothing is appended.
\<close>

theorem payment_over_cap_counterexample:
  "run capped_requests empty_db = capped_db \<and>
   (\<exists>snap. buildFeeSnapshot False False capped_db 1 (20031 * DAY_MS) = Inr snap \<and>
      total_payable snap = 500100 \<and> round2 (fl 500100) = round2 (total_payable snap)) \<and>
   payments_add None (20031 * DAY_MS) (Some 1) (Some (Fin 500100)) capped_db =
     (reply 400 (Message ''Invalid payment amount (max 500000 PKR)''), capped_db)"
proof -
  have day: "(20031 * DAY_MS) div DAY_MS = 20031"
    by (simp add: DAY_MS_def)
  have "\<exists>snap. buildFeeSnapshot False False capped_db 1 (20031 * DAY_MS) = Inr snap \<and>
      total_payable snap = 500100 \<and> round2 (fl 500100) = round2 (total_payable snap)"
    by (simp add: buildFeeSnapshot_with_payment [OF capped_rows(1) _ capped_rows(2)] day
        js_add_def)
  moreover
  have "payments_add None (20031 * DAY_MS) (Some 1) (Some (Fin 500100)) capped_db =
      (reply 400 (Message ''Invalid payment amount (max 500000 PKR)''), capped_db)"
    by (simp add: payments_add_def MAX_MONTHLY_FEE_def)
  ultimately show ?thesis
    by (simp add: capped_requests_result)
qed

text \<open>
  The range test reads the amount as a binary64 number: an amount written
  500000.00000000001 is held as 500000 and is within the range.
\<close>

lemma amount_written_above_cap:
  "MAX_MONTHLY_FEE < 50000000000000001 / 100000000000"
  "fl (50000000000000001 / 100000000000) = MAX_MONTHLY_FEE"
  by code_simp+

text \<open>
  Claim C10, as amended. An amount that is not a finite number, or whose binary64 value
  is at most 0 or exceeds 500000, is refused with status 400 whatever the database holds
  (with the message ``Invalid payment amount'' when the student id is given), and nothing
  is written. Consequently, whenever the total payable of the student's snapshot is
  500000.005 or more, so that it rounds above 500000, no amount is accepted and the
  database stays unchanged.
\<close>

theorem payment_amount_cap:
  "(\<forall>a. a = NaN \<or> a = NegInfinity \<or> a = PosInfinity \<or>
        (\<exists>q. a = Fin q \<and> (q \<le> 0 \<or> fl q \<le> 0 \<or> MAX_MONTHLY_FEE < fl q)) \<longrightarrow>
      status (fst (payments_add fault now raw_student_id (Some a) s)) = 400 \<and>
      snd (payments_add fault now raw_student_id (Some a) s) = s \<and>
      (\<forall>studentId. raw_student_id = Some studentId \<and> studentId \<noteq> 0 \<longrightarrow>
         fst (payments_add fault now raw_student_id (Some a) s) =
           reply 400 (Message ''Invalid payment amount (max 500000 PKR)''))) \<and>
   (\<forall>studentId snap.
      buildFeeSnapshot False False s studentId now = Inr snap \<and>
      MAX_MONTHLY_FEE + 1 / 200 \<le> total_payable snap \<longrightarrow>
      (\<forall>raw_amount.
         status (fst (payments_add fault now (Some studentId) raw_amount s)) \<noteq> 200 \<and>
         snd (payments_add fault now (Some studentId) raw_amount s) = s))"
proof (intro conjI allI impI)
  fix a
  assume "a = NaN \<or> a = NegInfinity \<or> a = PosInfinity \<or>
        (\<exists>q. a = Fin q \<and> (q \<le> 0 \<or> fl q \<le> 0 \<or> MAX_MONTHLY_FEE < fl q))"
  then have bad: "a = NaN \<or> a = NegInfinity \<or> a = PosInfinity \<or>
        (\<exists>q. a = Fin q \<and> (fl q \<le> 0 \<or> MAX_MONTHLY_FEE < fl q))"
    using fl_nonpos by blast
  then show "status (fst (payments_add fault now raw_student_id (Some a) s)) = 400"
    by (auto simp: payments_add_def reply_def Let_def split: option.splits)
  from bad show "snd (payments_add fault now raw_student_id (Some a) s) = s"
    by (auto simp: payments_add_def reply_def Let_def split: option.splits)
  fix studentId
  assume "raw_student_id = Some studentId \<and> studentId \<noteq> 0"
  with bad show "fst (payments_add fault now raw_student_id (Some a) s) =
           reply 400 (Message ''Invalid payment amount (max 500000 PKR)'')"
    by (auto simp: payments_add_def Let_def)
next
  fix studentId snap raw_amount
  assume a: "buildFeeSnapshot False False s studentId now = Inr snap \<and>
      MAX_MONTHLY_FEE + 1 / 200 \<le> total_payable snap"
  show no: "status (fst (payments_add fault now (Some studentId) raw_amount s)) \<noteq> 200"
  proof
    assume "status (fst (payments_add fault now (Some studentId) raw_amount s)) = 200"
    from payments_add_accepted_D [OF this] a obtain amt where
      amt: "fl amt \<le> MAX_MONTHLY_FEE" "round2 (fl amt) = round2 (total_payable snap)"
      by auto
    from round2_within_cap [OF amt(1)] round2_above_cap [of "total_payable snap"] a amt(2)
    show False
      by simp
  qed
  then show "snd (payments_add fault now (Some studentId) raw_amount s) = s"
    by (rule payments_add_unchanged)
qed

theorem payment_amount_cap_witness:
  "status (fst (payments_add None 0 (Some 1) (Some (Fin 500001)) pricey_db)) = 400 \<and>
   snd (payments_add None 0 (Some 1) (Some (Fin 500001)) pricey_db) = pricey_db \<and>
   status (fst (payments_add None (20032 * DAY_MS) (Some 1) (Some (Fin 500000)) pricey_db)) \<noteq> 200 \<and>
   snd (payments_add None (20032 * DAY_MS) (Some 1) (Some (Fin 500000)) pricey_db) = pricey_db"
proof -
  have day: "(20032 * DAY_MS) div DAY_MS = 20032"
    by (simp add: DAY_MS_def)
  obtain snap where snap: "buildFeeSnapshot False False pricey_db 1 (20032 * DAY_MS) = Inr snap"
      "total_payable snap = js_add (fl (499900001 / 1000)) 200"
    by (simp add: buildFeeSnapshot_with_payment [OF pricey_rows(1) _ pricey_rows(2)] day
        pricey_sums(1))
  have over: "MAX_MONTHLY_FEE + 1 / 200 \<le> total_payable snap"
    by (simp only: snap(2) pricey_sums(4))
  have big: "Fin 500001 = NaN \<or> Fin 500001 = NegInfinity \<or> Fin 500001 = PosInfinity \<or>
      (\<exists>q. Fin 500001 = Fin q \<and> (q \<le> 0 \<or> fl q \<le> 0 \<or> MAX_MONTHLY_FEE < fl q))"
    by (simp add: MAX_MONTHLY_FEE_def)
  from payment_amount_cap [of None 0 "Some 1" pricey_db] big
  have first: "status (fst (payments_add None 0 (Some 1) (Some (Fin 500001)) pricey_db)) = 400 \<and>
      snd (payments_add None 0 (Some 1) (Some (Fin 500001)) pricey_db) = pricey_db"
    by blast
  from payment_amount_cap [of None "20032 * DAY_MS" "Some 1" pricey_db] snap(1) over
  have second: "status (fst (payments_add None (20032 * DAY_MS) (Some 1) (Some (Fin 500000)) pricey_db)) \<noteq> 200 \<and>
      snd (payments_add None (20032 * DAY_MS) (Some 1) (Some (Fin 500000)) pricey_db) = pricey_db"
    by blast
  from first second show ?thesis
    by simp
qed

text \<open>
  Claim C10 as stated fails just above the cap: with a monthly fee written 499900.001
  and one day late the total payable is the binary64 sum next to 500000.001, more than
  500000, and the amount 500000 is accepted, since both round to 500000.00.
\<close>

theorem payment_just_above_cap_counterexample:
  "\<exists>snap. buildFeeSnapshot False False pricey_db 1 (20031 * DAY_MS) = Inr snap \<and>
     MAX_MONTHLY_FEE < total_payable snap \<and>
     status (fst (payments_add None (20031 * DAY_MS) (Some 1) (Some (Fin 500000)) pricey_db)) = 200"
proof -
  have day: "(20031 * DAY_MS) div DAY_MS = 20031"
    by (simp add: DAY_MS_def)
  obtain snap where snap: "buildFeeSnapshot False False pricey_db 1 (20031 * DAY_MS) = Inr snap"
      "total_payable snap = js_add (fl (499900001 / 1000)) 100"
    by (simp add: buildFeeSnapshot_with_payment [OF pricey_rows(1) _ pricey_rows(2)] day
        pricey_sums(1))
  have "status (fst (payments_add None (20031 * DAY_MS) (Some 1) (Some (Fin 500000)) pricey_db)) = 200"
    using payments_add_checked [OF _ pricey_rows(3) _ _ snap(1), of 500000]
    by (simp add: snap(2) pricey_sums(3) MAX_MONTHLY_FEE_def reply_def split: sum.splits)
  moreover have "MAX_MONTHLY_FEE < total_payable snap"
    by (simp only: snap(2) pricey_sums(2))
  ultimately show ?thesis
    using snap(1) by simp
qed

section \<open>One allocation per student\<close>

lemma updateRooms_keeps_tables:
  "updateRooms fault k roomIds s = Some s' \<Longrightarrow>
   allocations s' = allocations s \<and> payments s' = payments s \<and> students s' = students s"
  by (induction roomIds arbitrary: k s) (auto simp: decrement_occupied_def split: if_splits)

lemma add_student_allocations:
  "allocations (snd (add_student fault errors cnic_exists s)) = allocations s"
  by (simp add: add_student_def)

lemma payments_add_allocations:
  "allocations (snd (payments_add fault now raw_student_id raw_amount s)) = allocations s"
  using payments_add_snd [of fault now raw_student_id raw_amount s]
  by (auto simp: insert_payment_def)

lemma rooms_add_allocations: "allocations (snd (rooms_add fault body s)) = allocations s"
  by (simp add: rooms_add_def split: prod.splits option.splits)

lemma rooms_put_allocations:
  "allocations (snd (rooms_put fault raw_room_id body s)) = allocations s"
  by (simp add: rooms_put_def proceedUpdate_def split: prod.splits option.splits)

lemma rooms_delete_allocations:
  "allocations (snd (rooms_delete fault raw_room_id s)) = allocations s"
  by (simp add: rooms_delete_def split: option.splits)

lemma transfer_allocation_keys:
  "map alloc_student_id (allocations (snd (transfer fault now raw_student_id raw_new_room_id s))) =
     map alloc_student_id (allocations s) \<and>
   map allocation_id (allocations (snd (transfer fault now raw_student_id raw_new_room_id s))) =
     map allocation_id (allocations s)"
proof -
  have keys: "map alloc_student_id (map (\<lambda>a. if allocation_id a = i
        then a\<lparr>alloc_room_id := r, allocation_date := d\<rparr> else a) xs) = map alloc_student_id xs"
    "map allocation_id (map (\<lambda>a. if allocation_id a = i
        then a\<lparr>alloc_room_id := r, allocation_date := d\<rparr> else a) xs) = map allocation_id xs"
    for i r d and xs :: "allocation list"
    by (induction xs) simp_all
  show ?thesis
    by (simp add: transfer_def rollback_def Let_def update_allocation_def release_occupancy_def
        increment_occupancy_def keys split: option.splits)
qed

lemma allocate_allocations:
  "allocations (snd (allocate fault now raw_student_id raw_room_id s)) = allocations s \<or>
   (\<exists>studentId row. raw_student_id = Some studentId \<and> allocations_of s studentId = [] \<and>
      alloc_student_id row = studentId \<and>
      allocations (snd (allocate fault now raw_student_id raw_room_id s)) = allocations s @ [row])"
  by (auto simp: allocate_def Let_def insert_allocation_def increment_occupancy_def
      split: option.splits)

lemma delete_student_allocations:
  "allocations (snd (delete_student fault raw_student_id s)) = allocations s \<or>
   (\<exists>studentId. raw_student_id = Some studentId \<and>
      allocations (snd (delete_student fault raw_student_id s)) =
        filter (\<lambda>a. alloc_student_id a \<noteq> studentId) (allocations s))"
  by (auto simp: delete_student_def deleteDependentRows_def rollback_def Let_def
      split: option.splits dest: updateRooms_keeps_tables)

lemma single_allocation_handle:
  assumes "single_allocation s"
  shows "single_allocation (snd (handle fault now req s))"
proof (cases req)
  case (Allocate i r)
  from allocate_allocations [of fault now i r s] assms show ?thesis
    unfolding Allocate single_allocation_def allocations_of_def
    by (fastforce simp: filter_empty_conv)
next
  case (DeleteStudent i)
  from delete_student_allocations [of fault i s] assms show ?thesis
    unfolding DeleteStudent single_allocation_def
    by (auto simp: distinct_map_filter)
next
  case (TransferRoom i r)
  with assms show ?thesis
    by (simp add: single_allocation_def transfer_allocation_keys)
qed (use assms in \<open>simp_all add: single_allocation_def add_student_allocations
    payments_add_allocations rooms_add_allocations rooms_put_allocations
    rooms_delete_allocations\<close>)

lemma reachable_single_allocation: "reachable s \<Longrightarrow> single_allocation s"
  by (induction rule: reachable.induct)
    (simp_all add: single_allocation_def empty_db_def single_allocation_handle [unfolded single_allocation_def])

lemma distinct_key_filter:
  "distinct (map f xs) \<Longrightarrow> length (filter (\<lambda>a. f a = k) xs) \<le> 1"
proof (induction xs)
  case Nil
  then show ?case by simp
next
  case (Cons x xs)
  show ?case
  proof (cases "f x = k")
    case True
    with Cons.prems have "\<forall>a \<in> set xs. f a \<noteq> k"
      by (auto simp: image_iff)
    then have "filter (\<lambda>a. f a = k) xs = []"
      by (simp add: filter_empty_conv)
    with True show ?thesis by simp
  next
    case False
    with Cons show ?thesis by simp
  qed
qed

text \<open>
  Claim C6. In every database the server can reach, a student has at most one
  allocation row. The three mechanisms: \<open>allocate\<close> never answers 200 and changes nothing
  for a student who already has a row; \<open>transfer\<close> keeps the list of allocation rows,
  their ids and their students as they are (it rewrites the room and date of the row in
  place); a successful \<open>delete_student\<close> leaves the student no row.
\<close>

theorem one_allocation_per_student:
  assumes "reachable s"
  shows "length (allocations_of s studentId) \<le> 1 \<and>
    (allocations_of s studentId \<noteq> [] \<longrightarrow>
       status (fst (allocate fault now (Some studentId) raw_room_id s)) \<noteq> 200 \<and>
       snd (allocate fault now (Some studentId) raw_room_id s) = s) \<and>
    map alloc_student_id (allocations (snd (transfer fault now raw_student_id raw_room_id s))) =
      map alloc_student_id (allocations s) \<and>
    map allocation_id (allocations (snd (transfer fault now raw_student_id raw_room_id s))) =
      map allocation_id (allocations s) \<and>
    (status (fst (delete_student fault (Some studentId) s)) = 200 \<longrightarrow>
       allocations_of (snd (delete_student fault (Some studentId) s)) studentId = [])"
proof (intro conjI impI)
  from reachable_single_allocation [OF assms]
  have "distinct (map alloc_student_id (allocations s))"
    by (simp add: single_allocation_def)
  from distinct_key_filter [OF this, of studentId]
  show "length (allocations_of s studentId) \<le> 1"
    by (simp add: allocations_of_def)
next
  assume "allocations_of s studentId \<noteq> []"
  then show "status (fst (allocate fault now (Some studentId) raw_room_id s)) \<noteq> 200"
    "snd (allocate fault now (Some studentId) raw_room_id s) = s"
    by (simp_all add: allocate_def reply_def split: option.splits)
next
  show "map alloc_student_id (allocations (snd (transfer fault now raw_student_id raw_room_id s))) =
      map alloc_student_id (allocations s)"
    "map allocation_id (allocations (snd (transfer fault now raw_student_id raw_room_id s))) =
      map allocation_id (allocations s)"
    by (simp_all add: transfer_allocation_keys)
next
  assume "status (fst (delete_student fault (Some studentId) s)) = 200"
  then show "allocations_of (snd (delete_student fault (Some studentId) s)) studentId = []"
    by (auto simp: delete_student_def deleteDependentRows_def rollback_def reply_def Let_def
        allocations_of_def filter_empty_conv split: option.splits if_splits)
qed

lemma reachable_run: "reachable s \<Longrightarrow> reachable (run reqs s)"
proof (induction reqs arbitrary: s)
  case Nil
  then show ?case by simp
next
  case (Cons req reqs)
  obtain now r where req: "req = (now, r)"
    by (cases req)
  from Cons.prems have "reachable (snd (handle None now r s))"
    by (rule reachable_handle)
  from Cons.IH [OF this] show ?case
    by (simp add: req)
qed

lemma fl_five_halves: "fl (5 / 2) = 5 / 2"
  by code_simp

lemma fractional_run_result: "run fractional_run empty_db = crowded_db"
  by (simp add: fl_five_halves fractional_run_def empty_db_def crowded_db_def half_bed_body_def
      rooms_add_def validateRoomPayload_def validate_room_number_def validate_capacity_def
      validate_monthly_fee_def validate_floor_level_def negative_number_def
      ROOM_NUMBER_MAX_LENGTH_def MAX_ROOM_CAPACITY_def MAX_MONTHLY_FEE_def
      add_student_def allocate_def fails_def reply_def student_exists_def allocations_of_def
      room_by_id_def first_row_def insert_allocation_def increment_occupancy_def date_now_def
      DAY_MS_def Let_def)

lemma reachable_crowded_db: "reachable crowded_db"
  using reachable_run [OF reachable_empty, of fractional_run]
  by (simp add: fractional_run_result)

theorem one_allocation_per_student_witness:
  "length (allocations_of crowded_db 1) \<le> 1 \<and>
   status (fst (allocate None 0 (Some 1) (Some 1) crowded_db)) \<noteq> 200 \<and>
   snd (allocate None 0 (Some 1) (Some 1) crowded_db) = crowded_db \<and>
   allocations_of (snd (delete_student None (Some 1) crowded_db)) 1 = []"
proof -
  have housed: "allocations_of crowded_db 1 \<noteq> []"
    by (simp add: allocations_of_def crowded_db_def)
  have removed: "status (fst (delete_student None (Some 1) crowded_db)) = 200"
    by (simp add: delete_student_def deleteDependentRows_def rollback_def reply_def fails_def
        student_exists_def allocations_of_def crowded_db_def decrement_occupied_def Let_def)
  from one_allocation_per_student [OF reachable_crowded_db, of 1 None 0 "Some 1" "Some 1"]
    housed removed
  show ?thesis
    by simp
qed

section \<open>Room occupancy\<close>

text \<open>
  Claim C5 does not hold of the code. \<open>validateRoomPayload\<close> admits any finite capacity
  above 0 and up to 50, whole or not (the floor level, by contrast, is checked with
  \<^verbatim>\<open>Number.isInteger\<close>). After the run \<open>fractional_run\<close> from the empty database, room 1
  has capacity 2.5 and occupancy 3: the third allocation passed the check
  \<^verbatim>\<open>current_occupancy >= capacity\<close> with 2 against 2.5.
\<close>

theorem fractional_capacity_overfilled:
  "reachable (run fractional_run empty_db) \<and>
   map capacity (rooms (run fractional_run empty_db)) = [5 / 2] \<and>
   map current_occupancy (rooms (run fractional_run empty_db)) = [3] \<and>
   \<not> occupancy_bounded (run fractional_run empty_db)"
  using reachable_crowded_db
  by (simp add: fractional_run_result occupancy_bounded_def) (simp add: crowded_db_def)

section \<open>Occupancy when capacities are whole numbers\<close>

lemma ledger_ok_iff:
  "ledger_ok s \<longleftrightarrow> distinct (map room_id (rooms s)) \<and>
     (\<forall>r \<in> set (rooms s). room_id r \<le> rooms_seq s \<and> whole (capacity r) \<and>
        0 \<le> current_occupancy r \<and> of_int (current_occupancy r) \<le> capacity r)"
  by (auto simp: ledger_ok_def occupancy_bounded_def list_all_iff)

lemma whole_next_bed:
  assumes "whole c" and "of_int n < c"
  shows "of_int (n + 1) \<le> c"
proof -
  obtain m where m: "c = of_int m"
    using assms(1) unfolding whole_def by metis
  with assms(2) have "n < m"
    by simp
  then have "n + 1 \<le> m"
    by simp
  then have "(of_int (n + 1) :: rat) \<le> of_int m"
    by (simp only: of_int_le_iff)
  with m show ?thesis
    by simp
qed

lemma first_match_unique:
  "distinct (map f xs) \<Longrightarrow> first_row (filter (\<lambda>x. f x = k) xs) = Some y \<Longrightarrow>
   x \<in> set xs \<Longrightarrow> f x = k \<Longrightarrow> x = y"
proof (induction xs)
  case Nil
  then show ?case by simp
next
  case (Cons z zs)
  show ?case
  proof (cases "f z = k")
    case True
    with Cons.prems(2) have y: "y = z"
      by (simp add: first_row_def)
    from Cons.prems(1) True have "\<forall>a \<in> set zs. f a \<noteq> k"
      by (auto simp: image_iff)
    with Cons.prems(3,4) y show ?thesis
      by auto
  next
    case False
    with Cons show ?thesis
      by auto
  qed
qed

lemma room_by_id_unique:
  "distinct (map room_id (rooms s)) \<Longrightarrow> room_by_id s roomId = Some room \<Longrightarrow>
   r \<in> set (rooms s) \<Longrightarrow> room_id r = roomId \<Longrightarrow> r = room"
  unfolding room_by_id_def by (rule first_match_unique)

lemma room_by_id_member:
  "room_by_id s roomId = Some room \<Longrightarrow> room \<in> set (rooms s) \<and> room_id room = roomId"
proof -
  assume "room_by_id s roomId = Some room"
  then obtain rest where "filter (\<lambda>r. room_id r = roomId) (rooms s) = room # rest"
    by (auto simp: room_by_id_def first_row_def split: list.splits)
  then have "room \<in> set (filter (\<lambda>r. room_id r = roomId) (rooms s))"
    by (metis list.set_intros(1))
  then show ?thesis
    by simp
qed

text \<open>Rewriting rooms one by one, keeping their ids.\<close>

lemma ledger_ok_map:
  assumes "ledger_ok s"
    and "rooms s' = map g (rooms s)" and "rooms_seq s' = rooms_seq s"
    and "\<And>r. r \<in> set (rooms s) \<Longrightarrow> room_id (g r) = room_id r \<and> whole (capacity (g r)) \<and>
        0 \<le> current_occupancy (g r) \<and> of_int (current_occupancy (g r)) \<le> capacity (g r)"
  shows "ledger_ok s'"
proof -
  have ids: "map room_id (rooms s') = map room_id (rooms s)"
    using assms(2,4) by simp
  have "distinct (map room_id (rooms s'))"
    using assms(1) unfolding ids by (simp add: ledger_ok_iff)
  moreover have "\<forall>r \<in> set (rooms s'). room_id r \<le> rooms_seq s' \<and> whole (capacity r) \<and>
        0 \<le> current_occupancy r \<and> of_int (current_occupancy r) \<le> capacity r"
    using assms by (auto simp: ledger_ok_iff)
  ultimately show ?thesis
    by (simp add: ledger_ok_iff)
qed


lemma ledger_ok_increment:
  assumes "ledger_ok s" and "room_by_id s roomId = Some room"
    and "of_int (current_occupancy room) < capacity room"
  shows "ledger_ok (increment_occupancy s roomId)"
proof (rule ledger_ok_map [OF assms(1)])
  show "rooms (increment_occupancy s roomId) =
      map (\<lambda>r. if room_id r = roomId then r\<lparr>current_occupancy := current_occupancy r + 1\<rparr> else r)
        (rooms s)"
    by (simp add: increment_occupancy_def)
  show "rooms_seq (increment_occupancy s roomId) = rooms_seq s"
    by (simp add: increment_occupancy_def)
next
  fix r
  assume r: "r \<in> set (rooms s)"
  let ?g = "\<lambda>r. if room_id r = roomId then r\<lparr>current_occupancy := current_occupancy r + 1\<rparr> else r"
  from assms(1) r have ok: "whole (capacity r)" "0 \<le> current_occupancy r"
      "of_int (current_occupancy r) \<le> capacity r" and d: "distinct (map room_id (rooms s))"
    by (auto simp: ledger_ok_iff)
  show "room_id (?g r) = room_id r \<and> whole (capacity (?g r)) \<and>
        0 \<le> current_occupancy (?g r) \<and> of_int (current_occupancy (?g r)) \<le> capacity (?g r)"
  proof (cases "room_id r = roomId")
    case True
    from room_by_id_unique [OF d assms(2) r True] have "r = room" .
    with assms(3) have "of_int (current_occupancy r) < capacity r"
      by simp
    from whole_next_bed [OF ok(1) this] ok True show ?thesis
      by simp
  next
    case False
    with ok show ?thesis by simp
  qed
qed

lemma ledger_ok_release: "ledger_ok s \<Longrightarrow> ledger_ok (release_occupancy s roomId)"
  by (rule ledger_ok_map [where g = "\<lambda>r. if room_id r = roomId
        then r\<lparr>current_occupancy := (if current_occupancy r > 0 then current_occupancy r - 1 else 0)\<rparr>
        else r"])
    (auto simp: release_occupancy_def ledger_ok_iff)

lemma ledger_ok_decrement: "ledger_ok s \<Longrightarrow> ledger_ok (decrement_occupied s roomId)"
  by (rule ledger_ok_map [where g = "\<lambda>r. if room_id r = roomId \<and> current_occupancy r > 0
        then r\<lparr>current_occupancy := current_occupancy r - 1\<rparr> else r"])
    (auto simp: decrement_occupied_def ledger_ok_iff)

lemma ledger_ok_other_tables:
  "ledger_ok s \<Longrightarrow> rooms s' = rooms s \<Longrightarrow> rooms_seq s' = rooms_seq s \<Longrightarrow> ledger_ok s'"
  by (simp add: ledger_ok_def occupancy_bounded_def)

lemma updateRooms_ledger_ok:
  "ledger_ok s \<Longrightarrow> updateRooms fault k roomIds s = Some s' \<Longrightarrow> ledger_ok s'"
proof (induction roomIds arbitrary: k s)
  case Nil
  then show ?case by simp
next
  case (Cons roomId roomIds)
  from Cons.prems(2)
  have "updateRooms fault (Suc k) roomIds (decrement_occupied s roomId) = Some s'"
    by (simp split: if_splits)
  from Cons.IH [OF ledger_ok_decrement [OF Cons.prems(1)] this] show ?case .
qed

lemma room_by_id_release:
  "oldRoomId \<noteq> roomId \<Longrightarrow> room_by_id (release_occupancy s oldRoomId) roomId = room_by_id s roomId"
proof -
  assume ne: "oldRoomId \<noteq> roomId"
  have "filter (\<lambda>r. room_id r = roomId) (map (\<lambda>r. if room_id r = oldRoomId
        then r\<lparr>current_occupancy := (if current_occupancy r > 0 then current_occupancy r - 1 else 0)\<rparr>
        else r) xs) = filter (\<lambda>r. room_id r = roomId) xs" for xs :: "room list"
    using ne by (induction xs) auto
  then show ?thesis
    by (simp add: room_by_id_def release_occupancy_def)
qed

lemma allocate_ledger_ok:
  assumes "ledger_ok s"
  shows "ledger_ok (snd (allocate fault now raw_student_id raw_room_id s))"
proof -
  have keep: "ledger_ok (insert_allocation s i r d)" for i r d
    using assms by (rule ledger_ok_other_tables) (simp_all add: insert_allocation_def)
  have look: "room_by_id (insert_allocation s i r d) k = room_by_id s k" for i r d k
    by (simp add: room_by_id_def insert_allocation_def)
  show ?thesis
    using assms keep
    by (auto simp: allocate_def Let_def look not_le split: option.splits
        intro!: ledger_ok_increment)
qed

lemma transfer_ledger_ok:
  assumes "ledger_ok s"
  shows "ledger_ok (snd (transfer fault now raw_student_id raw_new_room_id s))"
proof -
  have keep: "ledger_ok (update_allocation s i r d)" for i r d
    using assms by (rule ledger_ok_other_tables) (simp_all add: update_allocation_def)
  have look: "room_by_id (update_allocation s i r d) k = room_by_id s k" for i r d k
    by (simp add: room_by_id_def update_allocation_def)
  show ?thesis
    using assms keep
    by (auto simp: transfer_def rollback_def Let_def look room_by_id_release not_le
        split: option.splits intro!: ledger_ok_increment ledger_ok_release)
qed

lemma delete_student_ledger_ok:
  assumes "ledger_ok s"
  shows "ledger_ok (snd (delete_student fault raw_student_id s))"
proof -
  have "ledger_ok (snd (deleteDependentRows fault k s i s1))" if "ledger_ok s1" for k i s1
    using assms that
    by (auto simp: deleteDependentRows_def rollback_def Let_def
        intro: ledger_ok_other_tables [of s1])
  with assms show ?thesis
    by (auto simp: delete_student_def rollback_def Let_def split: option.splits
        dest: updateRooms_ledger_ok)
qed


lemma clean_capacity_D:
  assumes "validateRoomPayload body requireAll = (errors, clean)"
    and "clean_capacity clean = Some c"
  shows "\<exists>w. body_capacity body = Some (Fin w) \<and> c = fl w \<and> 0 < c \<and> c \<le> MAX_ROOM_CAPACITY"
  using assms
  by (auto simp: validateRoomPayload_def validate_capacity_def Let_def
      split: prod.splits option.splits jsnum.splits if_splits)

lemma rooms_add_result:
  assumes "validateRoomPayload body True = (errors, clean)"
  shows "snd (rooms_add fault body s) = s \<or>
    (\<exists>r cap. clean_capacity clean = Some cap \<and> room_id r = rooms_seq s + 1 \<and>
       capacity r = cap \<and> current_occupancy r = 0 \<and>
       snd (rooms_add fault body s) = s\<lparr>rooms := rooms s @ [r], rooms_seq := rooms_seq s + 1\<rparr>)"
proof (cases "clean_room_number clean")
  case None
  then show ?thesis
    by (simp add: rooms_add_def assms)
next
  case number: (Some number)
  show ?thesis
  proof (cases "clean_capacity clean")
    case None
    with number show ?thesis
      by (simp add: rooms_add_def assms)
  next
    case cap: (Some cap)
    show ?thesis
    proof (cases "clean_monthly_fee clean")
      case None
      with number cap show ?thesis
        by (simp add: rooms_add_def assms)
    next
      case (Some fee)
      let ?r = "\<lparr>room_id = rooms_seq s + 1, room_number = number, capacity = cap,
        current_occupancy = 0,
        floor_level = (case clean_floor_level clean of Some f \<Rightarrow> f | None \<Rightarrow> 0),
        room_type = (case clean_room_type clean of
                       Some t \<Rightarrow> if t = [] then ''Standard'' else t
                     | None \<Rightarrow> ''Standard''),
        monthly_fee = fee,
        wifi_available = (case clean_wifi_available clean of Some w \<Rightarrow> w | None \<Rightarrow> False)\<rparr>"
      have "snd (rooms_add fault body s) = s \<or>
          snd (rooms_add fault body s) = s\<lparr>rooms := rooms s @ [?r], rooms_seq := rooms_seq s + 1\<rparr>"
        using number cap Some by (simp add: rooms_add_def assms)
      moreover have "room_id ?r = rooms_seq s + 1 \<and> capacity ?r = cap \<and> current_occupancy ?r = 0"
        by simp
      ultimately show ?thesis
        using cap by blast
    qed
  qed
qed

lemma rooms_add_ledger_ok:
  assumes "ledger_ok s" and "asks_whole_capacity (RoomsAdd body)"
  shows "ledger_ok (snd (rooms_add fault body s))"
proof -
  obtain errors clean where v: "validateRoomPayload body True = (errors, clean)"
    by (cases "validateRoomPayload body True")
  from rooms_add_result [OF v, of fault s] show ?thesis
  proof (elim disjE exE conjE)
    assume "snd (rooms_add fault body s) = s"
    with assms(1) show ?thesis by simp
  next
    fix r cap
    assume r: "clean_capacity clean = Some cap" "room_id r = rooms_seq s + 1"
      "capacity r = cap" "current_occupancy r = 0"
      and after: "snd (rooms_add fault body s) = s\<lparr>rooms := rooms s @ [r], rooms_seq := rooms_seq s + 1\<rparr>"
    from clean_capacity_D [OF v r(1)] assms(2) have cap: "0 < cap" "whole cap"
      by auto
    from assms(1) have old: "distinct (map room_id (rooms s))"
      "\<forall>x \<in> set (rooms s). room_id x \<le> rooms_seq s \<and> whole (capacity x) \<and>
        0 \<le> current_occupancy x \<and> of_int (current_occupancy x) \<le> capacity x"
      by (simp_all add: ledger_ok_iff)
    from old(2) r(2) have fresh: "room_id r \<notin> room_id ` set (rooms s)"
      by force
    have "distinct (map room_id (rooms s @ [r]))"
      using old(1) fresh by simp
    moreover have "\<forall>x \<in> set (rooms s @ [r]). room_id x \<le> rooms_seq s + 1 \<and> whole (capacity x) \<and>
        0 \<le> current_occupancy x \<and> of_int (current_occupancy x) \<le> capacity x"
      using old(2) r(2-4) cap by auto
    ultimately show ?thesis
      by (simp add: ledger_ok_iff after)
  qed
qed

lemma proceedUpdate_result:
  "snd (proceedUpdate fault k clean roomId s) = s \<or>
   snd (proceedUpdate fault k clean roomId s) =
     s\<lparr>rooms := map (\<lambda>r. if room_id r = roomId then apply_room_update clean r else r) (rooms s)\<rparr>"
  by (simp add: proceedUpdate_def)

lemma rooms_put_result:
  assumes "validateRoomPayload body False = (errors, clean)"
  shows "snd (rooms_put fault raw_room_id body s) = s \<or>
    (\<exists>roomId room. room_by_id s roomId = Some room \<and>
       (\<forall>c. clean_capacity clean = Some c \<longrightarrow> of_int (current_occupancy room) \<le> c) \<and>
       snd (rooms_put fault raw_room_id body s) =
         s\<lparr>rooms := map (\<lambda>r. if room_id r = roomId then apply_room_update clean r else r)
                       (rooms s)\<rparr>)"
proof (cases raw_room_id)
  case None
  then show ?thesis
    by (simp add: rooms_put_def)
next
  case raw: (Some roomId)
  show ?thesis
  proof (cases "room_by_id s roomId")
    case None
    with raw show ?thesis
      by (simp add: rooms_put_def assms)
  next
    case room: (Some room)
    show ?thesis
    proof (cases "\<forall>c. clean_capacity clean = Some c \<longrightarrow> of_int (current_occupancy room) \<le> c")
      case False
      then obtain c where "clean_capacity clean = Some c" "c < of_int (current_occupancy room)"
        by (auto simp: not_le)
      with raw room show ?thesis
        by (simp add: rooms_put_def assms)
    next
      case True
      have "snd (rooms_put fault raw_room_id body s) = s \<or>
          (\<exists>k. snd (rooms_put fault raw_room_id body s) = snd (proceedUpdate fault k clean roomId s))"
        using raw room
        by (cases "clean_capacity clean"; cases "clean_room_number clean")
          (auto simp: rooms_put_def assms)
      then show ?thesis
      proof (elim disjE exE)
        assume "snd (rooms_put fault raw_room_id body s) = s"
        then show ?thesis by simp
      next
        fix k
        assume "snd (rooms_put fault raw_room_id body s) = snd (proceedUpdate fault k clean roomId s)"
        with proceedUpdate_result [of fault k clean roomId s] room True show ?thesis
          by auto
      qed
    qed
  qed
qed



lemma rooms_put_ledger_ok:
  assumes "ledger_ok s" and "asks_whole_capacity (RoomsUpdate raw_room_id body)"
  shows "ledger_ok (snd (rooms_put fault raw_room_id body s))"
proof -
  obtain errors clean where v: "validateRoomPayload body False = (errors, clean)"
    by (cases "validateRoomPayload body False")
  have whole_new: "whole c" if "clean_capacity clean = Some c" for c
    using clean_capacity_D [OF v that] assms(2) by auto
  from rooms_put_result [OF v, of fault raw_room_id s] show ?thesis
  proof (elim disjE exE conjE)
    assume "snd (rooms_put fault raw_room_id body s) = s"
    with assms(1) show ?thesis by simp
  next
    fix roomId room
    assume found: "room_by_id s roomId = Some room"
        "\<forall>c. clean_capacity clean = Some c \<longrightarrow> of_int (current_occupancy room) \<le> c"
      and after: "snd (rooms_put fault raw_room_id body s) =
        s\<lparr>rooms := map (\<lambda>r. if room_id r = roomId then apply_room_update clean r else r) (rooms s)\<rparr>"
    show ?thesis
    proof (rule ledger_ok_map [OF assms(1)])
      show "rooms (snd (rooms_put fault raw_room_id body s)) =
          map (\<lambda>r. if room_id r = roomId then apply_room_update clean r else r) (rooms s)"
        "rooms_seq (snd (rooms_put fault raw_room_id body s)) = rooms_seq s"
        by (simp_all add: after)
    next
      fix r
      assume r: "r \<in> set (rooms s)"
      let ?g = "\<lambda>r. if room_id r = roomId then apply_room_update clean r else r"
      from assms(1) r have ok: "whole (capacity r)" "0 \<le> current_occupancy r"
          "of_int (current_occupancy r) \<le> capacity r" and d: "distinct (map room_id (rooms s))"
        by (auto simp: ledger_ok_iff)
      show "room_id (?g r) = room_id r \<and> whole (capacity (?g r)) \<and>
          0 \<le> current_occupancy (?g r) \<and> of_int (current_occupancy (?g r)) \<le> capacity (?g r)"
      proof (cases "room_id r = roomId")
        case True
        from room_by_id_unique [OF d found(1) r True] have same: "r = room" .
        show ?thesis
        proof (cases "clean_capacity clean")
          case None
          with ok True show ?thesis
            by (simp add: apply_room_update_def)
        next
          case (Some c)
          with found(2) whole_new same ok True show ?thesis
            by (simp add: apply_room_update_def)
        qed
      next
        case False
        with ok show ?thesis by simp
      qed
    qed
  qed
qed

lemma rooms_delete_ledger_ok:
  assumes "ledger_ok s"
  shows "ledger_ok (snd (rooms_delete fault raw_room_id s))"
  using assms
  by (auto simp: rooms_delete_def ledger_ok_iff distinct_map_filter split: option.splits)

lemma payments_add_rooms:
  "rooms (snd (payments_add fault now raw_student_id raw_amount s)) = rooms s \<and>
   rooms_seq (snd (payments_add fault now raw_student_id raw_amount s)) = rooms_seq s"
  using payments_add_snd [of fault now raw_student_id raw_amount s]
  by (auto simp: insert_payment_def)

lemma ledger_ok_handle:
  assumes "ledger_ok s" and "asks_whole_capacity req"
  shows "ledger_ok (snd (handle fault now req s))"
proof (cases req)
  case (AddStudent errors cnic_exists)
  from assms(1) show ?thesis
    unfolding AddStudent by (rule ledger_ok_other_tables) (simp_all add: add_student_def)
next
  case (PaymentsAdd i a)
  from assms(1) show ?thesis
    unfolding PaymentsAdd by (rule ledger_ok_other_tables) (simp_all add: payments_add_rooms)
qed (use assms in \<open>simp_all add: allocate_ledger_ok transfer_ledger_ok delete_student_ledger_ok
    rooms_add_ledger_ok rooms_put_ledger_ok rooms_delete_ledger_ok\<close>)

lemma ledger_ok_empty: "ledger_ok empty_db"
  by (simp add: ledger_ok_def occupancy_bounded_def empty_db_def)

lemma ledger_ok_serve:
  "ledger_ok s \<Longrightarrow> list_all (\<lambda>(fault, now, req). asks_whole_capacity req) reqs \<Longrightarrow>
   ledger_ok (serve reqs s)"
  by (induction reqs arbitrary: s) (auto simp: ledger_ok_handle)

text \<open>
  Further property (behind the finding on claim C5). Starting from the empty database,
  any sequence of requests, with any storage faults and clocks, in which every room
  creation and room update asks for a whole-number capacity leaves every room with an
  occupancy between 0 and its capacity.
\<close>

theorem occupancy_bounded_whole_capacities:
  assumes "list_all (\<lambda>(fault, now, req). asks_whole_capacity req) reqs"
  shows "occupancy_bounded (serve reqs empty_db)"
  using ledger_ok_serve [OF ledger_ok_empty assms] by (simp add: ledger_ok_def)

theorem occupancy_bounded_whole_capacities_witness:
  "occupancy_bounded (serve orderly_requests empty_db)"
  using occupancy_bounded_whole_capacities [of orderly_requests]
  by (simp add: orderly_requests_def half_bed_body_def whole_def)

section \<open>Payment dates\<close>

lemma payments_add_payments:
  "payments (snd (payments_add fault now raw_student_id raw_amount s)) = payments s \<or>
   (\<exists>p. pay_date p = now div DAY_MS \<and>
      payments (snd (payments_add fault now raw_student_id raw_amount s)) = payments s @ [p])"
  using payments_add_snd [of fault now raw_student_id raw_amount s]
  by (auto simp: insert_payment_def date_now_def)

lemma delete_student_payments:
  "set (payments (snd (delete_student fault raw_student_id s))) \<subseteq> set (payments s)"
  by (auto simp: delete_student_def deleteDependentRows_def rollback_def Let_def
      split: option.splits if_splits dest: updateRooms_keeps_tables)

lemma handle_payments:
  "set (payments (snd (handle fault now req s))) \<subseteq>
     set (payments s) \<union> {p. pay_date p = now div DAY_MS}"
proof (cases req)
  case (PaymentsAdd i a)
  from payments_add_payments [of fault now i a s] show ?thesis
    unfolding PaymentsAdd by auto
next
  case (DeleteStudent i)
  from delete_student_payments [of fault i s] show ?thesis
    unfolding DeleteStudent by auto
next
  case (Allocate i r)
  then show ?thesis
    by (simp add: allocate_def Let_def insert_allocation_def increment_occupancy_def
        split: option.splits)
next
  case (TransferRoom i r)
  then show ?thesis
    by (simp add: transfer_def rollback_def Let_def update_allocation_def release_occupancy_def
        increment_occupancy_def split: option.splits)
next
  case (AddStudent errors cnic_exists)
  then show ?thesis
    by (simp add: add_student_def)
next
  case (RoomsAdd body)
  then show ?thesis
    by (simp add: rooms_add_def split: prod.splits option.splits)
next
  case (RoomsUpdate i body)
  then show ?thesis
    by (simp add: rooms_put_def proceedUpdate_def split: prod.splits option.splits)
next
  case (RoomsDelete i)
  then show ?thesis
    by (simp add: rooms_delete_def split: option.splits)
qed

lemma DAY_MS_div_mono: "t \<le> now \<Longrightarrow> t div DAY_MS \<le> now div DAY_MS"
  using DAY_MS_pos by (simp add: zdiv_mono1)

lemma serve_payments_dated:
  "clock_monotone t reqs \<Longrightarrow> \<forall>p \<in> set (payments s). pay_date p \<le> t div DAY_MS \<Longrightarrow>
   \<forall>p \<in> set (payments (serve reqs s)). pay_date p \<le> last_clock t reqs div DAY_MS"
proof (induction reqs arbitrary: t s)
  case Nil
  then show ?case by simp
next
  case (Cons x reqs)
  obtain fault now req where x: "x = (fault, now, req)"
    by (cases x)
  from Cons.prems(1) x have le: "t \<le> now" and rest: "clock_monotone now reqs"
    by simp_all
  have "\<forall>p \<in> set (payments (snd (handle fault now req s))). pay_date p \<le> now div DAY_MS"
  proof
    fix p
    assume "p \<in> set (payments (snd (handle fault now req s)))"
    with handle_payments [of fault now req s]
    have "p \<in> set (payments s) \<or> pay_date p = now div DAY_MS"
      by auto
    with Cons.prems(2) DAY_MS_div_mono [OF le] show "pay_date p \<le> now div DAY_MS"
      by force
  qed
  from Cons.IH [OF rest this] show ?case
    by (simp add: x)
qed

text \<open>
  Further property (behind the clock assumption of claim C8). Starting from the empty
  database, after any sequence of requests whose clocks never go back, no payment row is
  dated after the day of any later clock.
\<close>

theorem payments_never_postdated:
  assumes "clock_monotone t reqs" and "last_clock t reqs \<le> now"
  shows "list_all (\<lambda>p. pay_date p \<le> now div DAY_MS) (payments (serve reqs empty_db))"
proof -
  have "\<forall>p \<in> set (payments empty_db). pay_date p \<le> t div DAY_MS"
    by (simp add: empty_db_def)
  from serve_payments_dated [OF assms(1) this] DAY_MS_div_mono [OF assms(2)]
  show ?thesis
    by (force simp: list_all_iff)
qed

theorem payments_never_postdated_witness:
  "list_all (\<lambda>p. pay_date p \<le> 20002) (payments (serve orderly_requests empty_db))"
proof -
  have "clock_monotone 0 orderly_requests"
    "last_clock 0 orderly_requests \<le> 20002 * DAY_MS"
    by (simp_all add: orderly_requests_def DAY_MS_def)
  from payments_never_postdated [OF this] show ?thesis
    by (simp add: DAY_MS_def)
qed

end
